theory Spec2Isabelle
  imports Complex_Main "HOL-Library.AList"
begin

section \<open>JavaScript numbers\<close>

text \<open>
  The TypeScript sources compute on JavaScript numbers. A number is modelled as a real or
  one of the three special values of IEEE arithmetic, so that a division by zero is the
  value the program computes (\<open>Infinity\<close>, \<open>-Infinity\<close> or \<open>NaN\<close>) and not the \<open>0\<close> of
  HOL's total division. Finite arithmetic is exact: rounding and overflow are not modelled,
  and the two zeros are not told apart (a zero divisor counts as \<open>+0\<close>).
\<close>

datatype jsnum = Fin real | PInf | NInf | NaN

fun jneg :: "jsnum \<Rightarrow> jsnum" where
  "jneg (Fin a) = Fin (- a)"
| "jneg PInf = NInf"
| "jneg NInf = PInf"
| "jneg NaN = NaN"

fun jadd :: "jsnum \<Rightarrow> jsnum \<Rightarrow> jsnum" where
  "jadd (Fin a) (Fin b) = Fin (a + b)"
| "jadd NaN _ = NaN"
| "jadd _ NaN = NaN"
| "jadd PInf NInf = NaN"
| "jadd NInf PInf = NaN"
| "jadd PInf _ = PInf"
| "jadd _ PInf = PInf"
| "jadd NInf _ = NInf"
| "jadd _ NInf = NInf"

definition jsub :: "jsnum \<Rightarrow> jsnum \<Rightarrow> jsnum" where
  "jsub x y = jadd x (jneg y)"

text \<open>The sign of an infinite product or quotient: \<open>flip_if b x\<close> negates \<open>x\<close> when \<open>b\<close>.\<close>

definition flip_if :: "bool \<Rightarrow> jsnum \<Rightarrow> jsnum" where
  "flip_if b x = (if b then jneg x else x)"

fun jmul :: "jsnum \<Rightarrow> jsnum \<Rightarrow> jsnum" where
  "jmul (Fin a) (Fin b) = Fin (a * b)"
| "jmul NaN _ = NaN"
| "jmul _ NaN = NaN"
| "jmul (Fin a) y = (if a = 0 then NaN else flip_if (a < 0) y)"
| "jmul x (Fin b) = (if b = 0 then NaN else flip_if (b < 0) x)"
| "jmul PInf y = y"
| "jmul NInf y = jneg y"

fun jdiv :: "jsnum \<Rightarrow> jsnum \<Rightarrow> jsnum" where
  "jdiv (Fin a) (Fin b) =
     (if b \<noteq> 0 then Fin (a / b)
      else if a = 0 then NaN
      else if 0 < a then PInf else NInf)"
| "jdiv NaN _ = NaN"
| "jdiv _ NaN = NaN"
| "jdiv (Fin a) _ = Fin 0"
| "jdiv x (Fin b) = flip_if (b < 0) x"
| "jdiv _ _ = NaN"

fun jabs :: "jsnum \<Rightarrow> jsnum" where
  "jabs (Fin a) = Fin \<bar>a\<bar>"
| "jabs PInf = PInf"
| "jabs NInf = PInf"
| "jabs NaN = NaN"

text \<open>\<open>x < y\<close>, \<open>x > y\<close> and \<open>x === y\<close>: every comparison with \<open>NaN\<close> is false.\<close>

fun jlt :: "jsnum \<Rightarrow> jsnum \<Rightarrow> bool" where
  "jlt (Fin a) (Fin b) = (a < b)"
| "jlt NaN _ = False"
| "jlt _ NaN = False"
| "jlt _ NInf = False"
| "jlt PInf _ = False"
| "jlt _ _ = True"

definition jgt :: "jsnum \<Rightarrow> jsnum \<Rightarrow> bool" where
  "jgt x y = jlt y x"

fun jeq :: "jsnum \<Rightarrow> jsnum \<Rightarrow> bool" where
  "jeq NaN _ = False"
| "jeq _ NaN = False"
| "jeq x y = (x = y)"

text \<open>\<open>Math.max\<close>, \<open>Math.min\<close> and \<open>Math.sign\<close>: \<open>NaN\<close> if an argument is \<open>NaN\<close>.\<close>

fun Math_max :: "jsnum \<Rightarrow> jsnum \<Rightarrow> jsnum" where
  "Math_max NaN _ = NaN"
| "Math_max _ NaN = NaN"
| "Math_max x y = (if jlt x y then y else x)"

fun Math_min :: "jsnum \<Rightarrow> jsnum \<Rightarrow> jsnum" where
  "Math_min NaN _ = NaN"
| "Math_min _ NaN = NaN"
| "Math_min x y = (if jlt y x then y else x)"

fun Math_sign :: "jsnum \<Rightarrow> jsnum" where
  "Math_sign (Fin a) = Fin (sgn a)"
| "Math_sign PInf = Fin 1"
| "Math_sign NInf = Fin (- 1)"
| "Math_sign NaN = NaN"

fun Math_sqrt :: "jsnum \<Rightarrow> jsnum" where
  "Math_sqrt (Fin a) = (if a < 0 then NaN else Fin (sqrt a))"
| "Math_sqrt PInf = PInf"
| "Math_sqrt NInf = NaN"
| "Math_sqrt NaN = NaN"

text \<open>Truthiness of a number in a condition or under \<open>||\<close>: \<open>0\<close> and \<open>NaN\<close> are falsy.\<close>

fun truthy :: "jsnum \<Rightarrow> bool" where
  "truthy (Fin a) = (a \<noteq> 0)"
| "truthy NaN = False"
| "truthy _ = True"

text \<open>
  \<open>xs[i] || d\<close> on an array of numbers: an index out of range reads \<open>undefined\<close>, which is
  falsy like \<open>0\<close> and \<open>NaN\<close>. The index is an integer, since the sources compute it as
  \<open>features.length - 5\<close>, which may be negative.
\<close>

definition index_or :: "jsnum list \<Rightarrow> int \<Rightarrow> jsnum \<Rightarrow> jsnum" where
  "index_or xs i d =
     (if 0 \<le> i \<and> i < int (length xs) \<and> truthy (xs ! nat i) then xs ! nat i else d)"

text \<open>
  \<open>xs[i]\<close> used in arithmetic: \<open>undefined\<close> becomes \<open>NaN\<close> there, and \<open>undefined === 0\<close>
  is false as \<open>NaN === 0\<close> is.
\<close>

definition index_num :: "jsnum list \<Rightarrow> nat \<Rightarrow> jsnum" where
  "index_num xs i = (if i < length xs then xs ! i else NaN)"

section \<open>Ensemble combiner (class StockPredictor)\<close>

text \<open>
  The predictor, the ensemble utilities, the model loader and the preprocessing functions
  are the modules gathered in \<open>src/lib/data-sources/yahoo.ts\<close>; the cache and the aggregator
  are \<open>DataCache\<close> and \<open>StockDataAggregator\<close> of the aggregator module.
\<close>

subsection \<open>calculateConfidence\<close>

definition calculateConfidence :: "jsnum \<Rightarrow> jsnum \<Rightarrow> jsnum \<Rightarrow> jsnum" where
  "calculateConfidence lstmPred xgbPred currentPrice =
     (let avgPrediction = jdiv (jadd lstmPred xgbPred) (Fin 2);
          predictionDiff = jabs (jsub lstmPred xgbPred);
          relativeDiff = jdiv predictionDiff avgPrediction;
          agreementScore = Math_max (Fin 0) (jsub (Fin 1) (jmul relativeDiff (Fin 10)));
          lstmDirection = Math_sign (jsub lstmPred currentPrice);
          xgbDirection = Math_sign (jsub xgbPred currentPrice);
          directionBonus = (if jeq lstmDirection xgbDirection then Fin (1 / 10) else Fin (- (1 / 10)));
          confidence = jmul (jadd agreementScore directionBonus) (Fin 100)
      in Math_max (Fin 0) (Math_min (Fin 100) confidence))"

subsection \<open>Direction of the prediction\<close>

datatype direction = Up | Down | Neutral

text \<open>
  \<open>getPredictionDirection(predictedPrice, currentPrice, neutralThreshold = 0.005)\<close> of the
  ensemble utilities; an omitted third argument is \<open>None\<close>.
\<close>

definition getPredictionDirection :: "jsnum \<Rightarrow> jsnum \<Rightarrow> jsnum option \<Rightarrow> direction" where
  "getPredictionDirection predictedPrice currentPrice neutralThreshold =
     (let threshold = (case neutralThreshold of None \<Rightarrow> Fin (5 / 1000) | Some t \<Rightarrow> t);
          changePercent = jdiv (jsub predictedPrice currentPrice) currentPrice
      in if jlt (jabs changePercent) threshold then Neutral
         else if jgt changePercent (Fin 0) then Up else Down)"

record EnsembleConfig =
  lstm_weight :: jsnum
  xgboost_weight :: jsnum
  neutral_threshold :: jsnum
  lstm_bias_correction :: jsnum
  xgboost_bias_correction :: jsnum

text \<open>
  \<open>models.ensembleConfig || {...}\<close> in \<open>predict\<close>: the loaded configuration, or the
  defaults built from the optional \<open>lstmWeight\<close> (\<open>lstmWeight || 0.6\<close>).
\<close>

definition or_num :: "jsnum option \<Rightarrow> jsnum \<Rightarrow> jsnum" where
  "or_num x d = (case x of None \<Rightarrow> d | Some v \<Rightarrow> if truthy v then v else d)"

definition predict_ensembleConfig :: "EnsembleConfig option \<Rightarrow> jsnum option \<Rightarrow> EnsembleConfig" where
  "predict_ensembleConfig loaded lstmWeight =
     (case loaded of
        Some c \<Rightarrow> c
      | None \<Rightarrow>
          \<lparr> lstm_weight = or_num lstmWeight (Fin (6 / 10)),
            xgboost_weight = jsub (Fin 1) (or_num lstmWeight (Fin (6 / 10))),
            neutral_threshold = Fin (5 / 1000),
            lstm_bias_correction = Fin 0,
            xgboost_bias_correction = Fin 0 \<rparr>)"

definition ensemblePrediction :: "jsnum \<Rightarrow> jsnum \<Rightarrow> jsnum \<Rightarrow> EnsembleConfig \<Rightarrow> jsnum" where
  "ensemblePrediction lstmPred xgbPred currentPrice config =
     (let correctedLstm = jadd lstmPred (lstm_bias_correction config);
          correctedXgb = jadd xgbPred (xgboost_bias_correction config)
      in jadd (jmul (lstm_weight config) correctedLstm) (jmul (xgboost_weight config) correctedXgb))"

text \<open>
  The direction step of \<open>StockPredictor.predict\<close> (``Calculate metrics'' and ``Determine
  direction''), as a function of the final prediction, the current price and the
  configuration in force.
\<close>

definition predict_direction :: "jsnum \<Rightarrow> jsnum \<Rightarrow> EnsembleConfig \<Rightarrow> direction" where
  "predict_direction finalPrediction currentPrice ensembleConfig =
     (let priceChange = jsub finalPrediction currentPrice;
          priceChangePercent = jmul (jdiv priceChange currentPrice) (Fin 100)
      in if jlt (jabs priceChangePercent) (jmul (neutral_threshold ensembleConfig) (Fin 100))
         then Neutral
         else if jgt priceChange (Fin 0) then Up else Down)"

subsection \<open>predictXGBoostFallback\<close>

definition predictXGBoostFallback :: "jsnum list \<Rightarrow> jsnum \<Rightarrow> jsnum \<Rightarrow> jsnum" where
  "predictXGBoostFallback features lstmPrediction currentPrice =
     (let momentum5 = index_or features (int (length features) - 5) (Fin 0);
          momentum10 = index_or features (int (length features) - 4) (Fin 0);
          rsi = index_or features 5 (Fin 50);
          adjustment0 =
            (if jgt momentum5 (Fin 0) \<and> jgt momentum10 (Fin 0)
               then jmul currentPrice (Fin (5 / 1000))
             else if jlt momentum5 (Fin 0) \<and> jlt momentum10 (Fin 0)
               then jmul (jneg currentPrice) (Fin (5 / 1000))
             else Fin 0);
          adjustment =
            (if jgt rsi (Fin 70) then jsub adjustment0 (jmul currentPrice (Fin (3 / 1000)))
             else if jlt rsi (Fin 30) then jadd adjustment0 (jmul currentPrice (Fin (3 / 1000)))
             else adjustment0)
      in jadd (jmul lstmPrediction (Fin (9 / 10))) (jmul (jadd currentPrice adjustment) (Fin (1 / 10))))"

text \<open>
  The confidence step of \<open>StockPredictor.predict\<close>: the tabular estimate is derived from
  the last flattened row, the sequence prediction and the current price (the last close),
  and \<open>calculateConfidence\<close> is called on the two predictions and that price. This is the
  only call of \<open>calculateConfidence\<close>, which is private.
\<close>

definition predict_confidence :: "jsnum list \<Rightarrow> jsnum \<Rightarrow> jsnum \<Rightarrow> jsnum" where
  "predict_confidence features lstmPrediction currentPrice =
     (let xgboostPrediction = predictXGBoostFallback features lstmPrediction currentPrice
      in calculateConfidence lstmPrediction xgboostPrediction currentPrice)"

text \<open>
  The tabular estimate as the specification words it, on finite numbers: the blend
  \<open>0.9 * seq + 0.1 * (p + adjustment)\<close>, the adjustment being the momentum term plus the
  RSI term, both read off the feature values themselves.
\<close>

definition spec_adjustment :: "real \<Rightarrow> real \<Rightarrow> real \<Rightarrow> real \<Rightarrow> real" where
  "spec_adjustment p m5 m10 r =
     (if 0 < m5 \<and> 0 < m10 then p * (5 / 1000)
      else if m5 < 0 \<and> m10 < 0 then - (p * (5 / 1000)) else 0)
     + (if 70 < r then - (p * (3 / 1000)) else if r < 30 then p * (3 / 1000) else 0)"

definition spec_tabular_estimate :: "real \<Rightarrow> real \<Rightarrow> real \<Rightarrow> real \<Rightarrow> real \<Rightarrow> real" where
  "spec_tabular_estimate seq p m5 m10 r = (9 / 10) * seq + (1 / 10) * (p + spec_adjustment p m5 m10 r)"

text \<open>
  What the code reads from a row of finite features: \<open>features[i] || d\<close>, on reals.
\<close>

definition feature_or :: "real list \<Rightarrow> int \<Rightarrow> real \<Rightarrow> real" where
  "feature_or fs i d = (if 0 \<le> i \<and> i < int (length fs) \<and> fs ! nat i \<noteq> 0 then fs ! nat i else d)"

section \<open>Feature scaling (preprocessing)\<close>

text \<open>
  The scaler parameters; the source's field names end in an underscore
  (\<open>data_min_\<close>, \<open>data_range_\<close>, ...), which an Isabelle name cannot.
\<close>

record ScalerParams =
  sp_min :: "jsnum list"
  sp_scale :: "jsnum list"
  data_min :: "jsnum list"
  data_max :: "jsnum list"
  data_range :: "jsnum list"

definition scale_value :: "ScalerParams \<Rightarrow> jsnum \<Rightarrow> nat \<Rightarrow> jsnum" where
  "scale_value scalerParams v i =
     (let range = index_num (data_range scalerParams) i
      in if jeq range (Fin 0) then Fin 0
         else jdiv (jsub v (index_num (data_min scalerParams) i)) range)"

definition scaleFeatures :: "jsnum list list \<Rightarrow> ScalerParams \<Rightarrow> jsnum list list" where
  "scaleFeatures features scalerParams =
     map (\<lambda>row. map (\<lambda>(v, i). scale_value scalerParams v i) (zip row [0..<length row])) features"

definition inverseScalePrice :: "jsnum \<Rightarrow> ScalerParams \<Rightarrow> nat option \<Rightarrow> jsnum" where
  "inverseScalePrice scaledPrice scalerParams priceIndex =
     (let ix = (case priceIndex of None \<Rightarrow> 3 | Some i \<Rightarrow> i);
          range = index_num (data_range scalerParams) ix;
          mn = index_num (data_min scalerParams) ix
      in jadd (jmul scaledPrice range) mn)"

section \<open>Indicator engine (class StockDataAggregator)\<close>

text \<open>
  A period is a natural number, as at every call site (9, 12, 14, 20, 26, 50, 200).
  \<open>data.slice(-period)\<close> is the last \<open>period\<close> elements, the whole array when it is
  shorter, and the whole array for \<open>period = 0\<close> (\<open>slice(-0)\<close> is \<open>slice(0)\<close>);
  \<open>data.slice(0, period)\<close> is \<open>take period data\<close>; \<open>reduce((a, b) => a + b, 0)\<close> is a
  left fold from \<open>0\<close>.
\<close>

definition slice_last :: "nat \<Rightarrow> 'a list \<Rightarrow> 'a list" where
  "slice_last period xs = (if period = 0 then xs else drop (length xs - period) xs)"

definition sum_reduce :: "jsnum list \<Rightarrow> jsnum" where
  "sum_reduce xs = foldl jadd (Fin 0) xs"

definition calculateSMA :: "jsnum list \<Rightarrow> nat \<Rightarrow> jsnum" where
  "calculateSMA data period =
     (if length data < period then Fin 0
      else jdiv (sum_reduce (slice_last period data)) (Fin (real period)))"

definition calculateEMA :: "jsnum list \<Rightarrow> nat \<Rightarrow> jsnum" where
  "calculateEMA data period =
     (if length data < period then Fin 0
      else let multiplier = jdiv (Fin 2) (Fin (real period + 1));
               ema0 = calculateSMA (take period data) period
           in foldl (\<lambda>ema x. jadd (jmul (jsub x ema) multiplier) ema) ema0 (drop period data))"

text \<open>
  \<open>calculateRSI\<close>; the aggregator's method and the function of the same name in the
  preprocessing module have the same body. The first loop builds the differences
  \<open>data[i] - data[i - 1]\<close> for \<open>1 \<le> i < data.length\<close>, the second one sums gains and losses
  over the last \<open>period\<close> of them.
\<close>

definition changes_of :: "jsnum list \<Rightarrow> jsnum list" where
  "changes_of data = map (\<lambda>i. jsub (data ! i) (data ! (i - 1))) [1..<length data]"

definition gain_loss_step :: "jsnum \<times> jsnum \<Rightarrow> jsnum \<Rightarrow> jsnum \<times> jsnum" where
  "gain_loss_step acc change =
     (case acc of (gains, losses) \<Rightarrow>
        if jgt change (Fin 0) then (jadd gains change, losses) else (gains, jsub losses change))"

definition calculateRSI :: "jsnum list \<Rightarrow> nat \<Rightarrow> jsnum" where
  "calculateRSI data period =
     (if length data < period + 1 then Fin 50
      else let changes = changes_of data;
               recentChanges = slice_last period changes;
               (gains, losses) = foldl gain_loss_step (Fin 0, Fin 0) recentChanges;
               avgGain = jdiv gains (Fin (real period));
               avgLoss = jdiv losses (Fin (real period))
           in if jeq avgLoss (Fin 0) then Fin 100
              else let rs = jdiv avgGain avgLoss
                   in jsub (Fin 100) (jdiv (Fin 100) (jadd (Fin 1) rs)))"

record macd_result =
  macd :: jsnum
  signal :: jsnum
  histogram :: jsnum

text \<open>
  The loop of \<open>calculateMACD\<close> carries the two running averages and the list of MACD values
  (\<open>push\<close> appends).
\<close>

definition macd_step :: "jsnum \<times> jsnum \<times> jsnum list \<Rightarrow> jsnum \<Rightarrow> jsnum \<times> jsnum \<times> jsnum list" where
  "macd_step acc x =
     (case acc of (ema12Running, ema26Running, macdValues) \<Rightarrow>
        let e12 = jadd (jmul (jsub x ema12Running) (jdiv (Fin 2) (Fin 13))) ema12Running;
            e26 = jadd (jmul (jsub x ema26Running) (jdiv (Fin 2) (Fin 27))) ema26Running
        in (e12, e26, macdValues @ [jsub e12 e26]))"

definition calculateMACD :: "jsnum list \<Rightarrow> macd_result" where
  "calculateMACD data =
     (let ema12 = calculateEMA data 12;
          ema26 = calculateEMA data 26;
          macdLine = jsub ema12 ema26;
          (ema12Running, ema26Running, macdValues) =
             foldl macd_step
               (calculateSMA (take 12 data) 12, calculateSMA (take 26 data) 26, [])
               (drop 26 data);
          signalLine = (if 9 \<le> length macdValues then calculateEMA macdValues 9 else macdLine)
      in \<lparr> macd = macdLine, signal = signalLine, histogram = jsub macdLine signalLine \<rparr>)"

record bollinger_result =
  upper :: jsnum
  middle :: jsnum
  lower :: jsnum

definition calculateBollingerBands :: "jsnum list \<Rightarrow> nat \<Rightarrow> bollinger_result" where
  "calculateBollingerBands data period =
     (let sma = calculateSMA data period;
          slice = slice_last period data;
          squaredDiffs = map (\<lambda>v. jmul (jsub v sma) (jsub v sma)) slice;
          variance = jdiv (sum_reduce squaredDiffs) (Fin (real period));
          stdDev = Math_sqrt variance
      in \<lparr> upper = jadd sma (jmul (Fin 2) stdDev),
           middle = sma,
           lower = jsub sma (jmul (Fin 2) stdDev) \<rparr>)"

text \<open>
  A bar. The date is its time in milliseconds; \<open>adjClose\<close> is optional. The fields carry a
  prefix because \<open>open\<close> is a constant of the library.
\<close>

record HistoricalDataPoint =
  d_date :: int
  d_open :: jsnum
  d_high :: jsnum
  d_low :: jsnum
  d_close :: jsnum
  d_volume :: jsnum
  d_adjClose :: "jsnum option"

text \<open>The indicator set; its \<open>macd\<close> field is \<open>macd_of\<close> here, \<open>macd\<close> being the MACD line above.\<close>

record TechnicalIndicators =
  rsi :: jsnum
  macd_of :: macd_result
  bollingerBands :: bollinger_result
  sma20 :: jsnum
  sma50 :: jsnum
  sma200 :: jsnum
  ema12 :: jsnum
  ema26 :: jsnum

text \<open>
  \<open>calculateTechnicalIndicators\<close>: \<open>None\<close> is the \<open>null\<close> it returns; the warning it logs
  below 200 bars has no effect on the result. \<open>d.adjClose || d.close\<close> is \<open>or_num\<close>.
\<close>

definition calculateTechnicalIndicators :: "HistoricalDataPoint list \<Rightarrow> TechnicalIndicators option" where
  "calculateTechnicalIndicators data =
     (if length data < 26 then None
      else let closes = map (\<lambda>d. or_num (d_adjClose d) (d_close d)) data
           in Some \<lparr> rsi = calculateRSI closes 14,
                     macd_of = calculateMACD closes,
                     bollingerBands = calculateBollingerBands closes 20,
                     sma20 = calculateSMA closes 20,
                     sma50 = (if 50 \<le> length data then calculateSMA closes 50 else Fin 0),
                     sma200 = (if 200 \<le> length data then calculateSMA closes 200 else Fin 0),
                     ema12 = calculateEMA closes 12,
                     ema26 = calculateEMA closes 26 \<rparr>)"

section \<open>Quote and history cache (class DataCache)\<close>

text \<open>
  Times are milliseconds, as \<open>Date.now()\<close> gives them; the clock is an argument of each
  operation. \<open>setTimeout\<close> belongs to the runtime: a pending timer is kept as the time it is
  due and the key its callback deletes, and \<open>run_timers now\<close> is the event loop firing the
  callbacks that are due at \<open>now\<close>.
\<close>

record 'v CacheEntry =
  data :: 'v
  timestamp :: int

record 'v DataCache =
  cache :: "string \<Rightarrow> 'v CacheEntry option"
  defaultTTL :: int
  timers :: "(int \<times> string) list"

definition new_DataCache :: "'v DataCache" where
  "new_DataCache = \<lparr> cache = Map.empty, defaultTTL = 60000, timers = [] \<rparr>"

definition DataCache_get :: "'v DataCache \<Rightarrow> int \<Rightarrow> string \<Rightarrow> 'v option \<times> 'v DataCache" where
  "DataCache_get c now key =
     (case cache c key of
        None \<Rightarrow> (None, c)
      | Some entry \<Rightarrow>
          if now - timestamp entry > defaultTTL c
            then (None, c\<lparr>cache := (cache c)(key := None)\<rparr>)
          else (Some (data entry), c))"

definition DataCache_set :: "'v DataCache \<Rightarrow> int \<Rightarrow> string \<Rightarrow> 'v \<Rightarrow> int option \<Rightarrow> 'v DataCache" where
  "DataCache_set c now key d ttl =
     c\<lparr> cache := (cache c)(key \<mapsto> \<lparr> data = d, timestamp = now \<rparr>),
        timers := (case ttl of
                     None \<Rightarrow> timers c
                   | Some t \<Rightarrow> if t \<noteq> 0 then timers c @ [(now + t, key)] else timers c) \<rparr>"

definition DataCache_clear :: "'v DataCache \<Rightarrow> 'v DataCache" where
  "DataCache_clear c = c\<lparr>cache := Map.empty\<rparr>"

definition run_timers :: "int \<Rightarrow> 'v DataCache \<Rightarrow> 'v DataCache" where
  "run_timers now c =
     c\<lparr> cache := (\<lambda>k. if k \<in> snd ` set (filter (\<lambda>t. fst t \<le> now) (timers c)) then None else cache c k),
        timers := filter (\<lambda>t. now < fst t) (timers c) \<rparr>"

section \<open>Data aggregator (class StockDataAggregator)\<close>

record StockQuote =
  q_symbol :: string
  q_name :: string
  q_price :: jsnum
  q_change :: jsnum
  q_changePercent :: jsnum
  q_open :: jsnum
  q_high :: jsnum
  q_low :: jsnum
  q_volume :: jsnum
  q_marketCap :: "jsnum option"
  q_timestamp :: int

record StockSearchResult =
  r_symbol :: string
  r_name :: string
  r_exchange :: string
  r_type :: string

datatype period = P1d | P5d | P1mo | P3mo | P6mo | P1y | P2y | P5y

fun period_str :: "period \<Rightarrow> string" where
  "period_str P1d = ''1d''"
| "period_str P5d = ''5d''"
| "period_str P1mo = ''1mo''"
| "period_str P3mo = ''3mo''"
| "period_str P6mo = ''6mo''"
| "period_str P1y = ''1y''"
| "period_str P2y = ''2y''"
| "period_str P5y = ''5y''"

fun periodDays :: "period \<Rightarrow> int" where
  "periodDays P1d = 1"
| "periodDays P5d = 5"
| "periodDays P1mo = 30"
| "periodDays P3mo = 90"
| "periodDays P6mo = 180"
| "periodDays P1y = 365"
| "periodDays P2y = 730"
| "periodDays P5y = 1825"

datatype outputSize = Compact | Full

text \<open>
  The values the aggregator handles: what a source client returns and what the cache holds.
  Of these only \<open>null\<close> is falsy; an empty array is truthy.
\<close>

datatype cval =
    VNull
  | VQuote StockQuote
  | VBars "HistoricalDataPoint list"
  | VSearch "StockSearchResult list"

fun cval_truthy :: "cval \<Rightarrow> bool" where
  "cval_truthy VNull = False"
| "cval_truthy _ = True"

text \<open>
  The two source clients are the environment: for each request, what the provider answers
  at this call. Each call of the aggregator also returns the requests it made, in order.
\<close>

record Sources =
  yahoo_getQuote :: "string \<Rightarrow> StockQuote option"
  alpha_getQuote :: "string \<Rightarrow> StockQuote option"
  yahoo_getHistoricalData :: "string \<Rightarrow> period \<Rightarrow> HistoricalDataPoint list"
  alpha_getHistoricalData :: "string \<Rightarrow> outputSize \<Rightarrow> HistoricalDataPoint list"
  yahoo_searchStocks :: "string \<Rightarrow> StockSearchResult list"

datatype source_call =
    YahooQuote string
  | AlphaQuote string
  | YahooHistory string period
  | AlphaHistory string outputSize
  | YahooSearch string

text \<open>
  \<open>toUpperCase\<close> and \<open>toLowerCase\<close>, on the ASCII letters (ticker symbols and queries).
\<close>

definition toUpperCase_char :: "char \<Rightarrow> char" where
  "toUpperCase_char c =
     (case map_of (zip ''abcdefghijklmnopqrstuvwxyz'' ''ABCDEFGHIJKLMNOPQRSTUVWXYZ'') c of
        None \<Rightarrow> c | Some d \<Rightarrow> d)"

definition toLowerCase_char :: "char \<Rightarrow> char" where
  "toLowerCase_char c =
     (case map_of (zip ''ABCDEFGHIJKLMNOPQRSTUVWXYZ'' ''abcdefghijklmnopqrstuvwxyz'') c of
        None \<Rightarrow> c | Some d \<Rightarrow> d)"

definition toUpperCase :: "string \<Rightarrow> string" where
  "toUpperCase s = map toUpperCase_char s"

definition toLowerCase :: "string \<Rightarrow> string" where
  "toLowerCase s = map toLowerCase_char s"

text \<open>
  \<open>getQuote\<close>. \<open>tGet\<close> is the clock when the cache is read, \<open>tSet\<close> the clock when the
  result is stored, after the requests have been awaited.
\<close>

definition getQuote ::
  "Sources \<Rightarrow> int \<Rightarrow> int \<Rightarrow> cval DataCache \<Rightarrow> string \<Rightarrow> cval \<times> cval DataCache \<times> source_call list" where
  "getQuote src tGet tSet agg symbol =
     (let cacheKey = ''quote:'' @ symbol;
          (cached, agg1) = DataCache_get agg tGet cacheKey
      in if (case cached of None \<Rightarrow> False | Some v \<Rightarrow> cval_truthy v) then (the cached, agg1, [])
         else let (quote, calls) =
                    (case yahoo_getQuote src symbol of
                       Some q \<Rightarrow> (Some q, [YahooQuote symbol])
                     | None \<Rightarrow> (alpha_getQuote src symbol, [YahooQuote symbol, AlphaQuote symbol]))
              in case quote of
                   Some q \<Rightarrow> (VQuote q, DataCache_set agg1 tSet cacheKey (VQuote q) None, calls)
                 | None \<Rightarrow> (VNull, agg1, calls))"

text \<open>
  \<open>getHistoricalData\<close>; an omitted period is \<open>None\<close>. \<open>tFilter\<close> is the clock read by
  \<open>new Date()\<close> before the secondary source's bars are filtered.
\<close>

definition getHistoricalData ::
  "Sources \<Rightarrow> int \<Rightarrow> int \<Rightarrow> int \<Rightarrow> cval DataCache \<Rightarrow> string \<Rightarrow> period option
     \<Rightarrow> cval \<times> cval DataCache \<times> source_call list" where
  "getHistoricalData src tGet tFilter tSet agg symbol period_arg =
     (let period = (case period_arg of None \<Rightarrow> P1y | Some p \<Rightarrow> p);
          cacheKey = ''historical:'' @ symbol @ '':'' @ period_str period;
          (cached, agg1) = DataCache_get agg tGet cacheKey
      in if (case cached of None \<Rightarrow> False | Some v \<Rightarrow> cval_truthy v) then (the cached, agg1, [])
         else let data0 = yahoo_getHistoricalData src symbol period;
                  (data1, calls) =
                    (if length data0 = 0 \<and> period \<noteq> P1d \<and> period \<noteq> P5d
                       then let outputSize = (if period = P1mo \<or> period = P3mo then Compact else Full);
                                fetched = alpha_getHistoricalData src symbol outputSize;
                                cutoff = tFilter - periodDays period * 24 * 60 * 60 * 1000
                            in (filter (\<lambda>d. cutoff \<le> d_date d) fetched,
                                [YahooHistory symbol period, AlphaHistory symbol outputSize])
                     else (data0, [YahooHistory symbol period]))
              in if 0 < length data1
                   then let cacheTTL = (if period = P1d then 60000 else if period = P5d then 120000 else 300000)
                        in (VBars data1, DataCache_set agg1 tSet cacheKey (VBars data1) (Some cacheTTL), calls)
                 else (VBars data1, agg1, calls))"

definition searchStocks ::
  "Sources \<Rightarrow> int \<Rightarrow> int \<Rightarrow> cval DataCache \<Rightarrow> string \<Rightarrow> cval \<times> cval DataCache \<times> source_call list" where
  "searchStocks src tGet tSet agg query =
     (if length query < 1 then (VSearch [], agg, [])
      else let cacheKey = ''search:'' @ toLowerCase query;
               (cached, agg1) = DataCache_get agg tGet cacheKey
           in if (case cached of None \<Rightarrow> False | Some v \<Rightarrow> cval_truthy v) then (the cached, agg1, [])
              else let results = yahoo_searchStocks src query
                   in if 0 < length results
                        then (VSearch results,
                              DataCache_set agg1 tSet cacheKey (VSearch results) (Some 600000),
                              [YahooSearch query])
                      else (VSearch results, agg1, [YahooSearch query]))"

text \<open>
  An absent or empty result: a \<open>null\<close> quote, an empty array of bars, an empty list of search
  results. \<open>no_empty_cached\<close> says that the cache holds none.
\<close>

fun is_empty_result :: "cval \<Rightarrow> bool" where
  "is_empty_result VNull = True"
| "is_empty_result (VBars bs) = (bs = [])"
| "is_empty_result (VSearch rs) = (rs = [])"
| "is_empty_result (VQuote q) = False"

definition no_empty_cached :: "cval DataCache \<Rightarrow> bool" where
  "no_empty_cached c = (\<forall>k e. cache c k = Some e \<longrightarrow> \<not> is_empty_result (data e))"

section \<open>Model artifact loader (class ModelLoader)\<close>

text \<open>
  A loaded sequence model is a handle of the runtime. \<open>ModelConfig\<close> is the preprocessing
  configuration; its metrics are the four numbers of the source, in order.
\<close>

type_synonym tf_model = nat

record ModelConfig =
  mc_symbol :: string
  sequenceLength :: jsnum
  featureColumns :: "string list"
  trainedAt :: string
  metrics :: "jsnum \<times> jsnum \<times> jsnum \<times> jsnum"

record LoadedModel =
  lstmModel :: "tf_model option"
  scalerParams :: "ScalerParams option"
  ensembleConfig :: "EnsembleConfig option"
  modelConfig :: "ModelConfig option"

text \<open>
  The loader's two maps, and what the runtime holds around them: the artifact requests
  issued so far, the promises created by \<open>loadModelsInternal\<close> (a promise is a number; it maps
  to its value once settled), and the models disposed of. A JavaScript \<open>Map\<close> keeps its keys
  in insertion order, so \<open>modelCache\<close> is an association list.

  An \<open>async\<close> function runs up to its first \<open>await\<close> when it is called and continues when the
  awaited promise has settled. \<open>loadModels\<close> is therefore two steps: \<open>loadModels_call\<close>, up to
  \<open>await loadPromise\<close>, and \<open>loadModels_resume\<close>, the rest of the \<open>try\<close> and its \<open>finally\<close>.
  Other calls can run between the two.
\<close>

record loader_state =
  modelCache :: "(string \<times> LoadedModel) list"
  loadingPromises :: "string \<Rightarrow> nat option"
  fetched :: "string list"
  settled :: "nat \<Rightarrow> LoadedModel option"
  next_promise :: nat
  disposed :: "tf_model list"

definition new_ModelLoader :: loader_state where
  "new_ModelLoader =
     \<lparr> modelCache = [], loadingPromises = Map.empty, fetched = [], settled = Map.empty,
       next_promise = 0, disposed = [] \<rparr>"

text \<open>The four requests of \<open>loadModelsInternal(symbol)\<close>, issued together when it is called.\<close>

definition artifact_paths :: "string \<Rightarrow> string list" where
  "artifact_paths symbol =
     (let basePath = ''/models/'' @ symbol
      in [basePath @ ''/lstm/model.json'',
          basePath @ ''/scaler_params.json'',
          basePath @ ''/ensemble_config.json'',
          basePath @ ''/preprocessing_config.json''])"

definition loadModelsInternal_start :: "loader_state \<Rightarrow> string \<Rightarrow> nat \<times> loader_state" where
  "loadModelsInternal_start st symbol =
     (next_promise st,
      st\<lparr> fetched := fetched st @ artifact_paths symbol, next_promise := Suc (next_promise st) \<rparr>)"

text \<open>
  The rest of \<open>loadModelsInternal\<close>, after \<open>Promise.allSettled\<close>: each of the four outcomes is
  the value of a fulfilled request or \<open>None\<close> for a rejected one, and a rejected one leaves
  its slot \<open>null\<close>. The promise of the load settles with the result.
\<close>

definition loadModelsInternal_result ::
  "tf_model option \<Rightarrow> ScalerParams option \<Rightarrow> EnsembleConfig option \<Rightarrow> ModelConfig option \<Rightarrow> LoadedModel" where
  "loadModelsInternal_result lstm scaler ensemble config =
     \<lparr> lstmModel = lstm, scalerParams = scaler, ensembleConfig = ensemble, modelConfig = config \<rparr>"

definition loadModelsInternal_settle :: "loader_state \<Rightarrow> nat \<Rightarrow> LoadedModel \<Rightarrow> loader_state" where
  "loadModelsInternal_settle st p result = st\<lparr> settled := (settled st)(p \<mapsto> result) \<rparr>"

text \<open>
  What a call of \<open>loadModels\<close> returns at once: the cached object, the promise of a load
  already in flight, or the promise of the load it has just started.
\<close>

datatype load_outcome = Cached LoadedModel | Joined nat | Started nat

definition loadModels_call :: "loader_state \<Rightarrow> string \<Rightarrow> load_outcome \<times> loader_state" where
  "loadModels_call st symbol =
     (let upperSymbol = toUpperCase symbol;
          lowerSymbol = toLowerCase symbol
      in case map_of (modelCache st) upperSymbol of
           Some m \<Rightarrow> (Cached m, st)
         | None \<Rightarrow>
             (case loadingPromises st upperSymbol of
                Some p \<Rightarrow> (Joined p, st)
              | None \<Rightarrow>
                  let (loadPromise, st1) = loadModelsInternal_start st lowerSymbol
                  in (Started loadPromise,
                      st1\<lparr> loadingPromises := (loadingPromises st1)(upperSymbol \<mapsto> loadPromise) \<rparr>)))"

text \<open>
  The continuation of the call that started the load \<open>loadPromise\<close>; it can run only once
  the promise has settled (\<open>None\<close> before that).
\<close>

definition loadModels_resume :: "loader_state \<Rightarrow> string \<Rightarrow> nat \<Rightarrow> (LoadedModel \<times> loader_state) option" where
  "loadModels_resume st symbol loadPromise =
     (let upperSymbol = toUpperCase symbol
      in case settled st loadPromise of
           None \<Rightarrow> None
         | Some result \<Rightarrow>
             Some (result,
                   st\<lparr> modelCache := AList.update upperSymbol result (modelCache st),
                       loadingPromises := (loadingPromises st)(upperSymbol := None) \<rparr>))"

text \<open>The object a caller ends up with, once the promise it holds has settled.\<close>

definition received :: "loader_state \<Rightarrow> load_outcome \<Rightarrow> LoadedModel option" where
  "received st outcome =
     (case outcome of Cached m \<Rightarrow> Some m | Joined p \<Rightarrow> settled st p | Started p \<Rightarrow> settled st p)"

text \<open>
  \<open>clearCache(symbol?)\<close>: an omitted or empty symbol is falsy and clears every entry.
\<close>

definition dispose_model :: "LoadedModel \<Rightarrow> tf_model list" where
  "dispose_model model = (case lstmModel model of None \<Rightarrow> [] | Some h \<Rightarrow> [h])"

definition clearCache :: "loader_state \<Rightarrow> string option \<Rightarrow> loader_state" where
  "clearCache st symbol =
     (if (case symbol of None \<Rightarrow> False | Some s \<Rightarrow> s \<noteq> [])
        then let upper = toUpperCase (the symbol)
             in st\<lparr> disposed := disposed st @
                                   (case map_of (modelCache st) upper of
                                      None \<Rightarrow> [] | Some model \<Rightarrow> dispose_model model),
                     modelCache := AList.delete upper (modelCache st) \<rparr>
      else st\<lparr> disposed := disposed st @ concat (map (\<lambda>(k, model). dispose_model model) (modelCache st)),
               modelCache := [] \<rparr>)"

definition isModelLoaded :: "loader_state \<Rightarrow> string \<Rightarrow> bool" where
  "isModelLoaded st symbol = (map_of (modelCache st) (toUpperCase symbol) \<noteq> None)"

subsection \<open>Interleaved calls\<close>

text \<open>
  The runtime is single-threaded: between two suspension points a step runs alone. An event
  is one such step: a call of \<open>loadModels\<close>, a load's promise settling with its result, the
  continuation of a suspended call, or a call of \<open>clearCache\<close>. Besides the loader the world
  holds the calls suspended at \<open>await loadPromise\<close>, each with the promise it waits for. A
  promise settles once, and a continuation runs once, after its promise has settled; an
  event that cannot happen leaves the world as it is.
\<close>

datatype event =
    Call string
  | Settle nat LoadedModel
  | Resume string nat
  | Clear "string option"

record world =
  loader :: loader_state
  suspended :: "(string \<times> nat) list"

fun step :: "world \<Rightarrow> event \<Rightarrow> world" where
  "step w (Call symbol) =
     (case loadModels_call (loader w) symbol of
        (Started p, st) \<Rightarrow> \<lparr> loader = st, suspended = (symbol, p) # suspended w \<rparr>
      | (_, st) \<Rightarrow> w\<lparr> loader := st \<rparr>)"
| "step w (Settle p result) =
     (if p < next_promise (loader w) \<and> settled (loader w) p = None
        then w\<lparr> loader := loadModelsInternal_settle (loader w) p result \<rparr>
      else w)"
| "step w (Resume symbol p) =
     (if (symbol, p) \<in> set (suspended w)
        then (case loadModels_resume (loader w) symbol p of
                None \<Rightarrow> w
              | Some (result, st) \<Rightarrow> \<lparr> loader = st, suspended = removeAll (symbol, p) (suspended w) \<rparr>)
      else w)"
| "step w (Clear symbol) = w\<lparr> loader := clearCache (loader w) symbol \<rparr>"

definition run :: "world \<Rightarrow> event list \<Rightarrow> world" where
  "run w evs = foldl step w evs"

definition new_world :: world where
  "new_world = \<lparr> loader = new_ModelLoader, suspended = [] \<rparr>"

text \<open>
  What holds of every world the events can reach from \<open>new_world\<close>: the promise a suspended
  call waits for is the one registered for its symbol, it has been created, and no two
  suspended calls wait for the same promise.
\<close>

definition loader_inv :: "world \<Rightarrow> bool" where
  "loader_inv w =
     ((\<forall>(s, q) \<in> set (suspended w).
         loadingPromises (loader w) (toUpperCase s) = Some q \<and> q < next_promise (loader w))
      \<and> distinct (map snd (suspended w)))"

text \<open>An event that clears the cache entry of the symbol whose upper-case form is \<open>u\<close>.\<close>

fun clears :: "string \<Rightarrow> event \<Rightarrow> bool" where
  "clears u (Clear None) = True"
| "clears u (Clear (Some s)) = (s = [] \<or> toUpperCase s = u)"
| "clears u _ = False"

text \<open>
  Two situations of a symbol. A load is in flight: the call that started it is suspended on
  the promise \<open>p\<close> and nothing is cached for the symbol yet. A load has completed: its
  result \<open>r\<close> is cached under the upper-case symbol \<open>u\<close> and no load is registered for it.
\<close>

definition in_flight :: "world \<Rightarrow> string \<Rightarrow> nat \<Rightarrow> bool" where
  "in_flight w symbol p =
     (loader_inv w \<and> (symbol, p) \<in> set (suspended w)
      \<and> map_of (modelCache (loader w)) (toUpperCase symbol) = None)"

definition cached_for :: "world \<Rightarrow> string \<Rightarrow> LoadedModel \<Rightarrow> bool" where
  "cached_for w u r =
     (loader_inv w \<and> map_of (modelCache (loader w)) u = Some r \<and> loadingPromises (loader w) u = None)"

section \<open>Sample inputs\<close>

text \<open>Concrete values, for the instances of the theorems below.\<close>

definition sample_bar :: HistoricalDataPoint where
  "sample_bar =
     \<lparr> d_date = 0, d_open = Fin 10, d_high = Fin 12, d_low = Fin 9, d_close = Fin 11,
       d_volume = Fin 1000, d_adjClose = None \<rparr>"

definition sample_result :: StockSearchResult where
  "sample_result =
     \<lparr> r_symbol = ''AAPL'', r_name = ''Apple Inc.'', r_exchange = ''NMS'', r_type = ''EQUITY'' \<rparr>"

definition sample_scaler :: ScalerParams where
  "sample_scaler =
     \<lparr> sp_min = [Fin (- (1 / 2)), Fin 0], sp_scale = [Fin (1 / 2), Fin 1],
       data_min = [Fin 1, Fin 5], data_max = [Fin 3, Fin 5], data_range = [Fin 2, Fin 0] \<rparr>"

text \<open>Sources that answer nothing: no quote, no bars, no search results.\<close>

definition silent_sources :: Sources where
  "silent_sources =
     \<lparr> yahoo_getQuote = (\<lambda>s. None), alpha_getQuote = (\<lambda>s. None),
       yahoo_getHistoricalData = (\<lambda>s p. []), alpha_getHistoricalData = (\<lambda>s z. []),
       yahoo_searchStocks = (\<lambda>q. []) \<rparr>"

text \<open>The result of a load whose four requests all failed.\<close>

definition all_null_model :: LoadedModel where
  "all_null_model = loadModelsInternal_result None None None None"

text \<open>
  A world in which a load of AAPL has been started and its promise has settled with that
  result, the continuation of the call not having run yet.
\<close>

definition settled_world :: world where
  "settled_world = run new_world [Call ''AAPL'', Settle 0 all_null_model]"

section \<open>The cache and per-write time to live\<close>

lemma DataCache_get_absent: "cache c k = None \<Longrightarrow> DataCache_get c now k = (None, c)"
  by (simp add: DataCache_get_def)

lemma DataCache_get_fresh:
  "cache c k = Some e \<Longrightarrow> now - timestamp e \<le> defaultTTL c \<Longrightarrow> DataCache_get c now k = (Some (data e), c)"
  by (simp add: DataCache_get_def)

lemma DataCache_get_stale:
  "cache c k = Some e \<Longrightarrow> defaultTTL c < now - timestamp e \<Longrightarrow>
   DataCache_get c now k = (None, c\<lparr>cache := (cache c)(k := None)\<rparr>)"
  by (simp add: DataCache_get_def)

text \<open>What a read returns after a write of the same key does not depend on the write's \<open>ttl\<close>.\<close>

lemma DataCache_get_after_set:
  "fst (DataCache_get (DataCache_set c t0 k v ttl) now k) =
     (if now - t0 > defaultTTL c then None else Some v)"
  by (simp add: DataCache_get_def DataCache_set_def)

text \<open>
  Claim C1. A value written with an explicit time to live \<open>t\<close> should be returned by every
  read before \<open>t\<close> has elapsed, expiry being decided by the time to live given at that
  write. \<open>DataCache.get\<close> compares the age of the entry with \<open>defaultTTL\<close> whatever the
  write said: search results stored at time \<open>0\<close> for ten minutes (\<open>600000\<close> ms) are gone
  at \<open>60001\<close> ms, when the read misses and evicts the entry.
\<close>

theorem DataCache_get_ignores_write_ttl:
  "fst (DataCache_get
          (run_timers 60001
             (DataCache_set new_DataCache 0 ''search:aapl'' (VSearch [sample_result]) (Some 600000)))
          60001 ''search:aapl'') = None
   \<and> cache (snd (DataCache_get
          (run_timers 60001
             (DataCache_set new_DataCache 0 ''search:aapl'' (VSearch [sample_result]) (Some 600000)))
          60001 ''search:aapl'')) ''search:aapl'' = None"
  by (simp add: DataCache_get_def DataCache_set_def run_timers_def new_DataCache_def)

section \<open>Direction of the prediction\<close>

lemma getPredictionDirection_Fin:
  "0 < c \<Longrightarrow> getPredictionDirection (Fin f) (Fin c) (Some (Fin t)) =
     (if \<bar>(f - c) / c\<bar> < t then Neutral else if c < f then Up else Down)"
  by (simp add: getPredictionDirection_def jsub_def jgt_def Let_def zero_less_divide_iff)

lemma predict_direction_Fin:
  "0 < c \<Longrightarrow> neutral_threshold cfg = Fin t \<Longrightarrow> predict_direction (Fin f) (Fin c) cfg =
     (if \<bar>(f - c) / c\<bar> < t then Neutral else if c < f then Up else Down)"
  by (simp add: predict_direction_def jsub_def jgt_def Let_def) (simp add: field_simps)

lemma getPredictionDirection_default:
  "getPredictionDirection f c None = getPredictionDirection f c (Some (Fin (5 / 1000)))"
  by (simp add: getPredictionDirection_def)

lemma predict_ensembleConfig_threshold:
  "neutral_threshold (predict_ensembleConfig None w) = Fin (5 / 1000)"
  by (simp add: predict_ensembleConfig_def)

text \<open>
  Claim C3. For a final prediction \<open>f\<close>, a positive current price \<open>c\<close> and a neutral
  threshold \<open>t\<close>, the direction is neutral exactly when the absolute relative change
  \<open>|(f - c) / c|\<close> is below \<open>t\<close>; otherwise it is up when the change is positive and down
  when it is negative. This holds of \<open>getPredictionDirection\<close> and of the direction step of
  \<open>predict\<close>, which agree; the threshold is 0.005 by default in both. With \<open>c = 100\<close> and
  \<open>t = 0.005\<close>, 100.3 is neutral, 101 is up and 99 is down.
\<close>

theorem direction_classification:
  assumes "0 < c" and "neutral_threshold cfg = Fin t"
  shows "(getPredictionDirection (Fin f) (Fin c) (Some (Fin t)) = Neutral \<longleftrightarrow> \<bar>(f - c) / c\<bar> < t)
    \<and> (\<not> \<bar>(f - c) / c\<bar> < t \<and> c < f \<longrightarrow> getPredictionDirection (Fin f) (Fin c) (Some (Fin t)) = Up)
    \<and> (\<not> \<bar>(f - c) / c\<bar> < t \<and> f < c \<longrightarrow> getPredictionDirection (Fin f) (Fin c) (Some (Fin t)) = Down)
    \<and> predict_direction (Fin f) (Fin c) cfg = getPredictionDirection (Fin f) (Fin c) (Some (Fin t))
    \<and> getPredictionDirection (Fin f) (Fin c) None = getPredictionDirection (Fin f) (Fin c) (Some (Fin (5 / 1000)))
    \<and> neutral_threshold (predict_ensembleConfig None w) = Fin (5 / 1000)
    \<and> getPredictionDirection (Fin (1003 / 10)) (Fin 100) (Some (Fin (5 / 1000))) = Neutral
    \<and> getPredictionDirection (Fin 101) (Fin 100) (Some (Fin (5 / 1000))) = Up
    \<and> getPredictionDirection (Fin 99) (Fin 100) (Some (Fin (5 / 1000))) = Down"
proof -
  have "getPredictionDirection (Fin (1003 / 10)) (Fin 100) (Some (Fin (5 / 1000))) = Neutral"
    by (simp add: getPredictionDirection_Fin)
  moreover have "getPredictionDirection (Fin 101) (Fin 100) (Some (Fin (5 / 1000))) = Up"
    by (simp add: getPredictionDirection_Fin)
  moreover have "getPredictionDirection (Fin 99) (Fin 100) (Some (Fin (5 / 1000))) = Down"
    by (simp add: getPredictionDirection_Fin)
  ultimately show ?thesis
    using assms
    by (simp add: getPredictionDirection_Fin predict_direction_Fin
        getPredictionDirection_default predict_ensembleConfig_threshold)
qed

theorem direction_classification_witness:
  "predict_direction (Fin (1003 / 10)) (Fin 100) (predict_ensembleConfig None None) = Neutral
   \<and> predict_direction (Fin 101) (Fin 100) (predict_ensembleConfig None None) = Up
   \<and> predict_direction (Fin 99) (Fin 100) (predict_ensembleConfig None None) = Down"
proof -
  have c: "(0::real) < 100" by simp
  have t: "neutral_threshold (predict_ensembleConfig None None) = Fin (5 / 1000)"
    by (simp add: predict_ensembleConfig_def)
  show ?thesis
    using direction_classification [OF c t, of "1003 / 10"]
      direction_classification [OF c t, of 101]
      direction_classification [OF c t, of 99]
    by simp
qed

section \<open>Indicators\<close>

text \<open>
  Claim C4. Below 26 bars \<open>calculateTechnicalIndicators\<close> returns \<open>null\<close>; from 26 bars on
  it returns an indicator set, whose \<open>sma50\<close> is 0 below 50 bars and whose \<open>sma200\<close> is 0
  below 200 bars. The function has no failing branch: it is total, and every bar sequence
  gives one of the two results.
\<close>

theorem calculateTechnicalIndicators_null_and_sma:
  "(length bars < 26 \<longrightarrow> calculateTechnicalIndicators bars = None)
   \<and> (26 \<le> length bars \<longrightarrow>
        (\<exists>r. calculateTechnicalIndicators bars = Some r
           \<and> (length bars < 50 \<longrightarrow> sma50 r = Fin 0)
           \<and> (length bars < 200 \<longrightarrow> sma200 r = Fin 0)))"
  by (simp add: calculateTechnicalIndicators_def Let_def)

theorem calculateTechnicalIndicators_null_and_sma_witness:
  "calculateTechnicalIndicators (replicate 25 sample_bar) = None
   \<and> (\<exists>r. calculateTechnicalIndicators (replicate 26 sample_bar) = Some r
          \<and> sma50 r = Fin 0 \<and> sma200 r = Fin 0)"
  using calculateTechnicalIndicators_null_and_sma [of "replicate 25 sample_bar"]
    calculateTechnicalIndicators_null_and_sma [of "replicate 26 sample_bar"]
  by simp

subsection \<open>RSI\<close>

lemma changes_of_Fin:
  "changes_of (map Fin xs) = map Fin (map (\<lambda>i. xs ! i - xs ! (i - 1)) [1..<length xs])"
  by (auto simp add: changes_of_def jsub_def)

lemma slice_last_map: "slice_last p (map f xs) = map f (slice_last p xs)"
  by (simp add: slice_last_def drop_map)

lemma gain_loss_fold_Fin:
  "0 \<le> g \<Longrightarrow> 0 \<le> l \<Longrightarrow>
   \<exists>g' l'. foldl gain_loss_step (Fin g, Fin l) (map Fin cs) = (Fin g', Fin l') \<and> 0 \<le> g' \<and> 0 \<le> l'"
proof (induction cs arbitrary: g l)
  case Nil
  then show ?case by simp
next
  case (Cons c cs)
  show ?case
  proof (cases "0 < c")
    case True
    then have "0 \<le> g + c" using Cons.prems by simp
    from Cons.IH [OF this Cons.prems(2)] True show ?thesis
      by (simp add: gain_loss_step_def jgt_def)
  next
    case False
    then have "0 \<le> l - c" using Cons.prems by simp
    from Cons.IH [OF Cons.prems(1) this] False show ?thesis
      by (simp add: gain_loss_step_def jgt_def jsub_def)
  qed
qed

lemma gain_loss_fold_pos:
  "\<forall>c \<in> set cs. 0 < c \<Longrightarrow>
   \<exists>g'. foldl gain_loss_step (Fin g, Fin 0) (map Fin cs) = (Fin g', Fin 0)"
proof (induction cs arbitrary: g)
  case Nil
  then show ?case by simp
next
  case (Cons c cs)
  then show ?case by (simp add: gain_loss_step_def jgt_def)
qed

lemma calculateRSI_in_range:
  assumes "0 < period"
  shows "\<exists>r. calculateRSI (map Fin xs) period = Fin r \<and> 0 \<le> r \<and> r \<le> 100"
proof (cases "length xs < period + 1")
  case True
  then show ?thesis by (simp add: calculateRSI_def)
next
  case False
  obtain g l where gl: "foldl gain_loss_step (Fin 0, Fin 0)
      (map Fin (slice_last period (map (\<lambda>i. xs ! i - xs ! (i - 1)) [1..<length xs]))) = (Fin g, Fin l)"
    and g: "0 \<le> g" and l: "0 \<le> l"
    using gain_loss_fold_Fin [of 0 0] by force
  have p: "real period \<noteq> 0" using assms by simp
  show ?thesis
  proof (cases "l = 0")
    case True
    with False gl p show ?thesis
      by (simp add: calculateRSI_def changes_of_Fin slice_last_map Let_def del: map_map)
  next
    case l0: False
    have rs: "0 \<le> g / l" using g l by simp
    then have "1 + g / l \<noteq> 0" by linarith
    moreover have "100 / (1 + g / l) \<le> 100" using rs by (simp add: divide_le_eq)
    then have "0 \<le> 100 - 100 / (1 + g / l)" by simp
    moreover have "100 - 100 / (1 + g / l) \<le> 100" using rs by simp
    ultimately show ?thesis using False gl p l0 assms
      by (simp add: calculateRSI_def changes_of_Fin slice_last_map Let_def jsub_def del: map_map)
  qed
qed

lemma calculateRSI_increasing:
  assumes "sorted_wrt (<) xs" and "period + 1 \<le> length xs" and "0 < period"
  shows "calculateRSI (map Fin xs) period = Fin 100"
proof -
  let ?cs = "map (\<lambda>i. xs ! i - xs ! (i - 1)) [1..<length xs]"
  have "\<forall>c \<in> set ?cs. 0 < c"
    using assms(1) by (auto simp add: sorted_wrt_iff_nth_less)
  moreover have "set (slice_last period ?cs) \<subseteq> set ?cs"
    by (auto simp add: slice_last_def dest: in_set_dropD)
  ultimately have "\<forall>c \<in> set (slice_last period ?cs). 0 < c" by blast
  from gain_loss_fold_pos [OF this, of 0] obtain g where
    "foldl gain_loss_step (Fin 0, Fin 0) (map Fin (slice_last period ?cs)) = (Fin g, Fin 0)" by blast
  moreover have "real period \<noteq> 0" using assms(3) by simp
  ultimately show ?thesis using assms(2)
    by (simp add: calculateRSI_def changes_of_Fin slice_last_map Let_def del: map_map)
qed

lemma calculateRSI_short: "length ds < period + 1 \<Longrightarrow> calculateRSI ds period = Fin 50"
  by (simp add: calculateRSI_def)

text \<open>
  Claim C5. For a series of finite closing prices \<open>xs\<close> and a period of at least 1, the RSI
  is a number in \<open>[0, 100]\<close>; it is exactly 100 when the series is strictly increasing and
  has at least \<open>period + 1\<close> prices; and it is the sentinel 50 for any series of fewer than
  \<open>period + 1\<close> prices.
\<close>

theorem calculateRSI_range:
  assumes "0 < period"
  shows "(\<exists>r. calculateRSI (map Fin xs) period = Fin r \<and> 0 \<le> r \<and> r \<le> 100)
    \<and> (sorted_wrt (<) xs \<and> period + 1 \<le> length xs \<longrightarrow> calculateRSI (map Fin xs) period = Fin 100)
    \<and> (length ds < period + 1 \<longrightarrow> calculateRSI ds period = Fin 50)"
  using assms calculateRSI_in_range calculateRSI_increasing calculateRSI_short by blast

theorem calculateRSI_range_witness:
  "calculateRSI (map Fin [1, 2, 4]) 2 = Fin 100 \<and> calculateRSI [Fin 1, Fin 2] 2 = Fin 50"
proof -
  have p: "(0::nat) < 2" by simp
  show ?thesis
    using calculateRSI_range [OF p, of "[1, 2, 4]" "[Fin 1, Fin 2]"] by simp
qed

section \<open>Scaling and its inverse\<close>

lemma scaleFeatures_nth:
  "j < length features \<Longrightarrow> i < length (features ! j) \<Longrightarrow>
   scaleFeatures features sp ! j ! i = scale_value sp (features ! j ! i) i"
  by (simp add: scaleFeatures_def)

text \<open>
  Claim C6. For a feature index \<open>i\<close> whose range \<open>r\<close> is not zero, a finite value \<open>x\<close> is
  scaled to \<open>(x - m) / r\<close>, \<open>m\<close> being the minimum of the feature, and
  \<open>inverseScalePrice\<close> at that index maps the scaled value back to \<open>x\<close>; this holds for every
  \<open>x\<close>, so in particular between the minimum and the maximum, and exactly, the arithmetic
  being that of the reals. For a feature index whose range is zero the scaled value is 0.
\<close>

theorem scale_inverse_roundtrip:
  assumes "j < length features" and "i < length (features ! j)"
    and "i < length (data_range sp)" and "i < length (data_min sp)"
    and "features ! j ! i = Fin x" and "data_min sp ! i = Fin m"
  shows "(data_range sp ! i = Fin r \<and> r \<noteq> 0 \<longrightarrow>
            scaleFeatures features sp ! j ! i = Fin ((x - m) / r)
          \<and> inverseScalePrice (scaleFeatures features sp ! j ! i) sp (Some i) = Fin x)
       \<and> (data_range sp ! i = Fin 0 \<longrightarrow> scaleFeatures features sp ! j ! i = Fin 0)"
  using assms
  by (simp add: scaleFeatures_nth scale_value_def inverseScalePrice_def index_num_def jsub_def Let_def)

theorem scale_inverse_roundtrip_witness:
  "scaleFeatures [[Fin 2, Fin 7]] sample_scaler ! 0 ! 0 = Fin (1 / 2)
   \<and> inverseScalePrice (scaleFeatures [[Fin 2, Fin 7]] sample_scaler ! 0 ! 0) sample_scaler (Some 0) = Fin 2
   \<and> scaleFeatures [[Fin 2, Fin 7]] sample_scaler ! 0 ! 1 = Fin 0"
proof -
  have "scaleFeatures [[Fin 2, Fin 7]] sample_scaler ! 0 ! 0 = Fin (1 / 2)
      \<and> inverseScalePrice (scaleFeatures [[Fin 2, Fin 7]] sample_scaler ! 0 ! 0) sample_scaler (Some 0) = Fin 2"
    using scale_inverse_roundtrip [of 0 "[[Fin 2, Fin 7]]" 0 sample_scaler 2 1 2]
    by (auto simp add: sample_scaler_def)
  moreover have "scaleFeatures [[Fin 2, Fin 7]] sample_scaler ! 0 ! 1 = Fin 0"
    using scale_inverse_roundtrip [of 0 "[[Fin 2, Fin 7]]" 1 sample_scaler 7 5 0]
    by (simp add: sample_scaler_def)
  ultimately show ?thesis by blast
qed

section \<open>The tabular estimate\<close>

lemma index_or_Fin: "index_or (map Fin fs) i (Fin d) = Fin (feature_or fs i d)"
proof (cases "0 \<le> i \<and> i < int (length fs)")
  case True
  then have "nat i < length fs" by linarith
  then show ?thesis using True by (simp add: index_or_def feature_or_def)
next
  case False
  then show ?thesis by (auto simp add: index_or_def feature_or_def)
qed

lemma predictXGBoostFallback_Fin:
  "predictXGBoostFallback (map Fin fs) (Fin s) (Fin p) =
     Fin (spec_tabular_estimate s p
            (feature_or fs (int (length fs) - 5) 0)
            (feature_or fs (int (length fs) - 4) 0)
            (feature_or fs 5 50))"
  by (simp add: predictXGBoostFallback_def index_or_Fin spec_tabular_estimate_def
      spec_adjustment_def jgt_def jsub_def Let_def algebra_simps)

text \<open>
  Claim C7, as stated, fails. In a flattened row of 125 features that are all \<open>0\<close>, the
  momentum features (at 120 and 121) and the RSI feature (at 5) are \<open>0\<close>. The RSI feature
  is below 30, so the claim adds 0.3 percent of the price: for a sequence prediction and a
  price of 100 it gives 100.03. The code reads the RSI feature as \<open>features[5] || 50\<close>, takes
  the \<open>0\<close> for a missing value, and returns 100.
\<close>

theorem predictXGBoostFallback_zero_rsi_counterexample:
  "predictXGBoostFallback (replicate 125 (Fin 0)) (Fin 100) (Fin 100)
     \<noteq> Fin (spec_tabular_estimate 100 100 0 0 0)"
  by (simp add: predictXGBoostFallback_def index_or_def spec_tabular_estimate_def
      spec_adjustment_def jgt_def Let_def)

text \<open>
  Claim C7, amended. For a finite sequence prediction \<open>s\<close>, price \<open>p\<close> and feature row
  \<open>fs\<close>, the estimate is \<open>0.9 * s + 0.1 * (p + adjustment)\<close>, the adjustment being that of the
  claim computed from these readings: momentum-5 is the fifth feature from the end and
  momentum-10 the fourth from the end, each read as \<open>0\<close> when it is missing; the RSI is
  the feature at index 5, read as 50 when it is missing or \<open>0\<close>.
\<close>

theorem predictXGBoostFallback_estimate:
  "predictXGBoostFallback (map Fin fs) (Fin s) (Fin p) =
     Fin (spec_tabular_estimate s p
            (feature_or fs (int (length fs) - 5) 0)
            (feature_or fs (int (length fs) - 4) 0)
            (feature_or fs 5 50))"
  by (rule predictXGBoostFallback_Fin)

theorem predictXGBoostFallback_estimate_witness:
  "predictXGBoostFallback (map Fin [0, 0, 0, 0, 0, 20, 1, 1, 0, 0, 0]) (Fin 200) (Fin 100)
     = Fin (19008 / 100)"
  using predictXGBoostFallback_estimate [of "[0, 0, 0, 0, 0, 20, 1, 1, 0, 0, 0]" 200 100]
  by (simp add: feature_or_def spec_tabular_estimate_def spec_adjustment_def)

section \<open>Confidence of the ensemble\<close>

text \<open>
  On finite predictions whose sum is not zero the confidence is the clamped formula; on
  finite predictions that are not both zero it is a number between 0 and 100, and it is 100
  when the two predictions are equal.
\<close>

lemma calculateConfidence_formula:
  assumes "s + t \<noteq> 0"
  shows "calculateConfidence (Fin s) (Fin t) (Fin p) =
     Fin (max 0 (min 100
        ((max 0 (1 - \<bar>s - t\<bar> / ((s + t) / 2) * 10)
          + (if sgn (s - p) = sgn (t - p) then 1 / 10 else - (1 / 10))) * 100)))"
  using assms
  by (auto simp add: calculateConfidence_def jsub_def Let_def max_def min_def)

lemma calculateConfidence_finite:
  assumes "\<not> (s = 0 \<and> t = 0)"
  shows "\<exists>c. calculateConfidence (Fin s) (Fin t) (Fin p) = Fin c \<and> 0 \<le> c \<and> c \<le> 100"
  using assms
  by (auto simp add: calculateConfidence_def jsub_def Let_def jgt_def flip_if_def)

lemma calculateConfidence_equal:
  assumes "s \<noteq> 0"
  shows "calculateConfidence (Fin s) (Fin s) (Fin p) = Fin 100"
  using assms
  by (auto simp add: calculateConfidence_def jsub_def Let_def jgt_def flip_if_def)

text \<open>
  Claim C2. The confidence should lie in \<open>[0, 100]\<close> for all predictions, zero ones
  included, and be 100 when the two predictions are equal and agree in direction. When the
  last close is \<open>0\<close> and the sequence prediction is \<open>0\<close>, the tabular estimate that
  \<open>predict\<close> derives is \<open>0\<close> whatever the feature row, since every adjustment is a multiple
  of the price. \<open>calculateConfidence\<close> is then called on \<open>(0, 0, 0)\<close>: the two predictions
  are equal and agree in direction, the relative difference is \<open>0 / 0\<close>, and the result is
  \<open>NaN\<close>, which \<open>Math.max\<close> and \<open>Math.min\<close> do not clamp.
\<close>

theorem calculateConfidence_zero_predictions:
  "predictXGBoostFallback (map Fin fs) (Fin 0) (Fin 0) = Fin 0
   \<and> predict_confidence (map Fin fs) (Fin 0) (Fin 0) = NaN
   \<and> calculateConfidence (Fin 0) (Fin 0) (Fin 0) = NaN"
proof -
  have x: "predictXGBoostFallback (map Fin fs) (Fin 0) (Fin 0) = Fin 0"
    by (simp add: predictXGBoostFallback_Fin spec_tabular_estimate_def spec_adjustment_def)
  have c: "calculateConfidence (Fin 0) (Fin 0) (Fin 0) = NaN"
    by (simp add: calculateConfidence_def jsub_def)
  show ?thesis using x c by (simp add: predict_confidence_def)
qed

section \<open>The aggregator caches no absent or empty result\<close>

lemma DataCache_get_no_empty:
  "no_empty_cached c \<Longrightarrow> DataCache_get c now k = (r, c') \<Longrightarrow> no_empty_cached c'"
  by (auto simp add: DataCache_get_def no_empty_cached_def split: option.splits if_splits)

lemma DataCache_get_hit_nonempty:
  "no_empty_cached c \<Longrightarrow> DataCache_get c now k = (Some v, c') \<Longrightarrow> \<not> is_empty_result v"
  by (auto simp add: DataCache_get_def no_empty_cached_def split: option.splits if_splits)

lemma DataCache_get_miss:
  "DataCache_get c now k = (None, c') \<Longrightarrow> cache c' k = None"
  by (auto simp add: DataCache_get_def split: option.splits if_splits)

lemma DataCache_set_no_empty:
  "no_empty_cached c \<Longrightarrow> \<not> is_empty_result v \<Longrightarrow> no_empty_cached (DataCache_set c now k v ttl)"
  by (auto simp add: DataCache_set_def no_empty_cached_def)

lemma run_timers_no_empty: "no_empty_cached c \<Longrightarrow> no_empty_cached (run_timers t c)"
  by (auto simp add: run_timers_def no_empty_cached_def split: if_splits)

lemma run_timers_absent: "cache c k = None \<Longrightarrow> cache (run_timers t c) k = None"
  by (simp add: run_timers_def)

lemma new_DataCache_no_empty: "no_empty_cached new_DataCache"
  by (simp add: no_empty_cached_def new_DataCache_def)

lemma nonempty_truthy: "\<not> is_empty_result v \<Longrightarrow> cval_truthy v"
  by (cases v) simp_all

text \<open>A call that finds nothing under its key asks the primary source.\<close>

lemma getQuote_absent:
  "cache c (''quote:'' @ symbol) = None \<Longrightarrow>
   YahooQuote symbol \<in> set (snd (snd (getQuote src t1 t2 c symbol)))"
  by (simp add: getQuote_def DataCache_get_absent split: option.splits)

lemma getHistoricalData_absent:
  "p = (case pa of None \<Rightarrow> P1y | Some q \<Rightarrow> q) \<Longrightarrow>
   cache c (''historical:'' @ symbol @ '':'' @ period_str p) = None \<Longrightarrow>
   YahooHistory symbol p \<in> set (snd (snd (getHistoricalData src t1 t2 t3 c symbol pa)))"
  by (simp add: getHistoricalData_def DataCache_get_absent Let_def)

lemma searchStocks_absent:
  "query \<noteq> [] \<Longrightarrow> cache c (''search:'' @ toLowerCase query) = None \<Longrightarrow>
   YahooSearch query \<in> set (snd (snd (searchStocks src t1 t2 c query)))"
  by (simp add: searchStocks_def DataCache_get_absent Let_def)

text \<open>What each call leaves in the cache.\<close>

lemma getQuote_result:
  assumes "no_empty_cached c" and "getQuote src t1 t2 c symbol = (r, c', calls)"
  shows "no_empty_cached c' \<and> (is_empty_result r \<longrightarrow> cache c' (''quote:'' @ symbol) = None)"
proof -
  obtain cached c1 where g: "DataCache_get c t1 (''quote:'' @ symbol) = (cached, c1)"
    by (cases "DataCache_get c t1 (''quote:'' @ symbol)")
  have c1: "no_empty_cached c1" using DataCache_get_no_empty [OF assms(1) g] .
  show ?thesis
  proof (cases cached)
    case None
    then have "cache c1 (''quote:'' @ symbol) = None" using DataCache_get_miss g by blast
    with assms(2) g None c1 show ?thesis
      by (auto simp add: getQuote_def DataCache_set_no_empty split: option.splits)
  next
    case (Some v)
    then have ne: "\<not> is_empty_result v" using DataCache_get_hit_nonempty assms(1) g by blast
    then have "cval_truthy v" by (rule nonempty_truthy)
    with assms(2) g Some c1 ne show ?thesis
      by (auto simp add: getQuote_def)
  qed
qed

lemma getHistoricalData_result:
  assumes "no_empty_cached c" and "getHistoricalData src t1 t2 t3 c symbol pa = (r, c', calls)"
    and "p = (case pa of None \<Rightarrow> P1y | Some q \<Rightarrow> q)"
  shows "no_empty_cached c'
    \<and> (is_empty_result r \<longrightarrow> cache c' (''historical:'' @ symbol @ '':'' @ period_str p) = None)"
proof -
  let ?k = "''historical:'' @ symbol @ '':'' @ period_str p"
  obtain cached c1 where g: "DataCache_get c t1 ?k = (cached, c1)"
    by (cases "DataCache_get c t1 ?k")
  have c1: "no_empty_cached c1" using DataCache_get_no_empty [OF assms(1) g] .
  show ?thesis
  proof (cases cached)
    case None
    then have "cache c1 ?k = None" using DataCache_get_miss g by blast
    with assms(2) g None c1 show ?thesis
      by (auto simp add: getHistoricalData_def Let_def DataCache_set_no_empty
          assms(3) [symmetric] split: if_splits)
  next
    case (Some v)
    then have ne: "\<not> is_empty_result v" using DataCache_get_hit_nonempty assms(1) g by blast
    then have "cval_truthy v" by (rule nonempty_truthy)
    with assms(2) g Some c1 ne show ?thesis
      by (auto simp add: getHistoricalData_def Let_def assms(3) [symmetric])
  qed
qed

lemma searchStocks_result:
  assumes "no_empty_cached c" and "searchStocks src t1 t2 c query = (r, c', calls)"
  shows "no_empty_cached c'
    \<and> (query \<noteq> [] \<and> is_empty_result r \<longrightarrow> cache c' (''search:'' @ toLowerCase query) = None)"
proof (cases "query = []")
  case True
  with assms show ?thesis by (auto simp add: searchStocks_def)
next
  case False
  let ?k = "''search:'' @ toLowerCase query"
  obtain cached c1 where g: "DataCache_get c t1 ?k = (cached, c1)"
    by (cases "DataCache_get c t1 ?k")
  have c1: "no_empty_cached c1" using DataCache_get_no_empty [OF assms(1) g] .
  show ?thesis
  proof (cases cached)
    case None
    then have "cache c1 ?k = None" using DataCache_get_miss g by blast
    with assms(2) g None c1 False show ?thesis
      by (auto simp add: searchStocks_def Let_def DataCache_set_no_empty split: if_splits)
  next
    case (Some v)
    then have ne: "\<not> is_empty_result v" using DataCache_get_hit_nonempty assms(1) g by blast
    then have "cval_truthy v" by (rule nonempty_truthy)
    with assms(2) g Some c1 False ne show ?thesis
      by (auto simp add: searchStocks_def Let_def)
  qed
qed

text \<open>
  Claim C10. Starting from a cache that holds no absent or empty result (as the new cache
  does, and as the timers leave it), each of \<open>getQuote\<close>, \<open>getHistoricalData\<close> and
  \<open>searchStocks\<close> leaves such a cache. When the call returns a \<open>null\<close> quote, an empty array
  of bars or, for a query that is not empty, an empty list of search results, nothing is
  stored under its key, and the next call for that key, at any later time and whatever
  timers have fired, asks the primary source again. (For the empty query \<open>searchStocks\<close>
  returns the empty list without forming a key.)
\<close>

theorem aggregator_never_caches_empty:
  assumes "no_empty_cached agg" and "p = (case pa of None \<Rightarrow> P1y | Some q \<Rightarrow> q)"
    and "getQuote src t1 t2 agg symbol = (rq, aq, cq)"
    and "getHistoricalData src t1 t2 t3 agg symbol pa = (rh, ah, ch)"
    and "searchStocks src t1 t2 agg query = (rs, asr, cs)"
  shows "no_empty_cached aq \<and> no_empty_cached ah \<and> no_empty_cached asr
    \<and> no_empty_cached (run_timers t agg) \<and> no_empty_cached (new_DataCache :: cval DataCache)
    \<and> (is_empty_result rq \<longrightarrow>
          cache aq (''quote:'' @ symbol) = None
          \<and> YahooQuote symbol \<in> set (snd (snd (getQuote src' t1' t2' (run_timers t aq) symbol))))
    \<and> (is_empty_result rh \<longrightarrow>
          cache ah (''historical:'' @ symbol @ '':'' @ period_str p) = None
          \<and> YahooHistory symbol p
               \<in> set (snd (snd (getHistoricalData src' t1' t2' t3' (run_timers t ah) symbol pa))))
    \<and> (query \<noteq> [] \<and> is_empty_result rs \<longrightarrow>
          cache asr (''search:'' @ toLowerCase query) = None
          \<and> YahooSearch query \<in> set (snd (snd (searchStocks src' t1' t2' (run_timers t asr) query))))"
proof -
  note q = getQuote_result [OF assms(1,3)]
  note h = getHistoricalData_result [OF assms(1,4,2)]
  note s = searchStocks_result [OF assms(1,5)]
  show ?thesis
    using q h s assms(2) run_timers_no_empty [OF assms(1)] new_DataCache_no_empty
    by (simp add: getQuote_absent getHistoricalData_absent searchStocks_absent run_timers_absent)
qed

theorem aggregator_never_caches_empty_witness:
  "fst (getQuote silent_sources 0 1 new_DataCache ''AAPL'') = VNull
   \<and> YahooQuote ''AAPL'' \<in> set (snd (snd (getQuote silent_sources 4 5
        (run_timers 3 (fst (snd (getQuote silent_sources 0 1 new_DataCache ''AAPL'')))) ''AAPL'')))
   \<and> fst (getHistoricalData silent_sources 0 1 2 new_DataCache ''AAPL'' None) = VBars []
   \<and> YahooHistory ''AAPL'' P1y \<in> set (snd (snd (getHistoricalData silent_sources 4 5 6
        (run_timers 3 (fst (snd (getHistoricalData silent_sources 0 1 2 new_DataCache ''AAPL'' None))))
        ''AAPL'' None)))
   \<and> fst (searchStocks silent_sources 0 1 new_DataCache ''Apple'') = VSearch []
   \<and> YahooSearch ''Apple'' \<in> set (snd (snd (searchStocks silent_sources 4 5
        (run_timers 3 (fst (snd (searchStocks silent_sources 0 1 new_DataCache ''Apple'')))) ''Apple'')))"
proof -
  have rq: "fst (getQuote silent_sources 0 1 new_DataCache ''AAPL'') = VNull"
    by (simp add: getQuote_def DataCache_get_def new_DataCache_def silent_sources_def)
  have rh: "fst (getHistoricalData silent_sources 0 1 2 new_DataCache ''AAPL'' None) = VBars []"
    by (simp add: getHistoricalData_def DataCache_get_def new_DataCache_def silent_sources_def)
  have rs: "fst (searchStocks silent_sources 0 1 new_DataCache ''Apple'') = VSearch []"
    by (simp add: searchStocks_def DataCache_get_def new_DataCache_def silent_sources_def)
  have inv: "no_empty_cached (new_DataCache :: cval DataCache)"
    by (simp add: no_empty_cached_def new_DataCache_def)
  have p: "P1y = (case None of None \<Rightarrow> P1y | Some q \<Rightarrow> q)" by simp
  have eq: "getQuote silent_sources 0 1 new_DataCache ''AAPL'' =
      (fst (getQuote silent_sources 0 1 new_DataCache ''AAPL''),
       fst (snd (getQuote silent_sources 0 1 new_DataCache ''AAPL'')),
       snd (snd (getQuote silent_sources 0 1 new_DataCache ''AAPL'')))" by simp
  have eh: "getHistoricalData silent_sources 0 1 2 new_DataCache ''AAPL'' None =
      (fst (getHistoricalData silent_sources 0 1 2 new_DataCache ''AAPL'' None),
       fst (snd (getHistoricalData silent_sources 0 1 2 new_DataCache ''AAPL'' None)),
       snd (snd (getHistoricalData silent_sources 0 1 2 new_DataCache ''AAPL'' None)))" by simp
  have es: "searchStocks silent_sources 0 1 new_DataCache ''Apple'' =
      (fst (searchStocks silent_sources 0 1 new_DataCache ''Apple''),
       fst (snd (searchStocks silent_sources 0 1 new_DataCache ''Apple'')),
       snd (snd (searchStocks silent_sources 0 1 new_DataCache ''Apple'')))" by simp
  show ?thesis
    using aggregator_never_caches_empty [OF inv p eq eh es, of 3 silent_sources 4 5 6] rq rh rs
    by simp
qed

section \<open>The model loader\<close>

subsection \<open>The invariant of the reachable worlds\<close>

lemma distinct_snd_unique:
  "distinct (map snd xs) \<Longrightarrow> (a, q) \<in> set xs \<Longrightarrow> (b, q) \<in> set xs \<Longrightarrow> a = b"
  by (induction xs) (auto simp add: rev_image_eqI)

lemma suspended_unique:
  assumes "loader_inv w" and "(s, q) \<in> set (suspended w)" and "(s', q') \<in> set (suspended w)"
    and "toUpperCase s = toUpperCase s'"
  shows "s = s' \<and> q = q'"
proof -
  have "loadingPromises (loader w) (toUpperCase s) = Some q"
    and "loadingPromises (loader w) (toUpperCase s') = Some q'"
    using assms(1-3) by (auto simp add: loader_inv_def)
  then have "q = q'" using assms(4) by simp
  moreover have "distinct (map snd (suspended w))" using assms(1) by (simp add: loader_inv_def)
  ultimately show ?thesis using assms(2,3) distinct_snd_unique by fastforce
qed

lemma loadModels_call_cache: "modelCache (snd (loadModels_call st s)) = modelCache st"
  by (simp add: loadModels_call_def loadModelsInternal_start_def Let_def split: option.splits)

lemma loadModels_call_loading_other:
  "toUpperCase s \<noteq> u \<Longrightarrow> loadingPromises (snd (loadModels_call st s)) u = loadingPromises st u"
  by (auto simp add: loadModels_call_def loadModelsInternal_start_def Let_def split: option.splits)

lemma loadModels_call_joined:
  "map_of (modelCache st) (toUpperCase s) = None \<Longrightarrow> loadingPromises st (toUpperCase s) = Some p \<Longrightarrow>
   loadModels_call st s = (Joined p, st)"
  by (simp add: loadModels_call_def)

lemma loadModels_call_cached:
  "map_of (modelCache st) (toUpperCase s) = Some m \<Longrightarrow> loadModels_call st s = (Cached m, st)"
  by (simp add: loadModels_call_def)

lemma loadModels_call_started:
  "map_of (modelCache st) (toUpperCase s) = None \<Longrightarrow> loadingPromises st (toUpperCase s) = None \<Longrightarrow>
   loadModels_call st s =
     (Started (next_promise st),
      st\<lparr> fetched := fetched st @ artifact_paths (toLowerCase s),
          next_promise := Suc (next_promise st),
          loadingPromises := (loadingPromises st)(toUpperCase s \<mapsto> next_promise st) \<rparr>)"
  by (simp add: loadModels_call_def loadModelsInternal_start_def)

lemma step_Call_suspended: "set (suspended w) \<subseteq> set (suspended (step w (Call s)))"
  by (auto split: prod.splits load_outcome.splits)

lemma step_Resume_enabled:
  "(s, q) \<in> set (suspended w) \<Longrightarrow> settled (loader w) q = Some r \<Longrightarrow>
   step w (Resume s q) =
     \<lparr> loader = (loader w)\<lparr> modelCache := AList.update (toUpperCase s) r (modelCache (loader w)),
                              loadingPromises := (loadingPromises (loader w))(toUpperCase s := None) \<rparr>,
       suspended = removeAll (s, q) (suspended w) \<rparr>"
  by (simp add: loadModels_resume_def Let_def)

lemma step_Resume_disabled:
  "\<not> ((s, q) \<in> set (suspended w) \<and> settled (loader w) q \<noteq> None) \<Longrightarrow> step w (Resume s q) = w"
  by (auto simp add: loadModels_resume_def)

lemma step_inv: "loader_inv w \<Longrightarrow> loader_inv (step w e)"
proof (cases e)
  case (Call symbol)
  assume inv: "loader_inv w"
  show ?thesis
  proof (cases "map_of (modelCache (loader w)) (toUpperCase symbol)")
    case (Some m)
    with inv Call show ?thesis by (simp add: loadModels_call_def loader_inv_def)
  next
    case None
    show ?thesis
    proof (cases "loadingPromises (loader w) (toUpperCase symbol)")
      case (Some p)
      with inv Call None show ?thesis by (simp add: loadModels_call_def loader_inv_def)
    next
      case nl: None
      have "\<forall>(s, q) \<in> set (suspended w). toUpperCase s \<noteq> toUpperCase symbol \<and> q < next_promise (loader w)"
        using inv nl by (auto simp add: loader_inv_def)
      then show ?thesis using inv Call None nl
        by (auto simp add: loadModels_call_def loader_inv_def loadModelsInternal_start_def)
    qed
  qed
next
  case (Settle p r)
  assume "loader_inv w"
  then show ?thesis using Settle by (auto simp add: loader_inv_def loadModelsInternal_settle_def)
next
  case (Resume symbol p)
  assume inv: "loader_inv w"
  show ?thesis
  proof (cases "(symbol, p) \<in> set (suspended w) \<and> settled (loader w) p \<noteq> None")
    case False
    then have "step w e = w" using Resume step_Resume_disabled by blast
    then show ?thesis using inv by simp
  next
    case True
    then obtain r where r: "settled (loader w) p = Some r" by blast
    have sp: "(symbol, p) \<in> set (suspended w)" using True by simp
    have d: "distinct (map snd (removeAll (symbol, p) (suspended w)))"
      using inv by (simp add: loader_inv_def distinct_map_filter removeAll_filter_not_eq)
    have "((loadingPromises (loader w))(toUpperCase symbol := None)) (toUpperCase s) = Some q
            \<and> q < next_promise (loader w)"
      if "(s, q) \<in> set (removeAll (symbol, p) (suspended w))" for s q
    proof -
      from that have sq: "(s, q) \<in> set (suspended w)" and ne: "(s, q) \<noteq> (symbol, p)" by auto
      have "toUpperCase s \<noteq> toUpperCase symbol"
        using suspended_unique [OF inv sq sp] ne by blast
      moreover have "loadingPromises (loader w) (toUpperCase s) = Some q \<and> q < next_promise (loader w)"
        using inv sq by (auto simp add: loader_inv_def)
      ultimately show ?thesis by simp
    qed
    then show ?thesis
      unfolding Resume step_Resume_enabled [OF sp r] loader_inv_def using d by auto
  qed
next
  case (Clear so)
  assume "loader_inv w"
  then show ?thesis using Clear by (auto simp add: loader_inv_def clearCache_def Let_def)
qed

lemma run_inv: "loader_inv w \<Longrightarrow> loader_inv (run w evs)"
  unfolding run_def by (induction evs arbitrary: w) (simp_all add: step_inv)

lemma new_world_inv: "loader_inv new_world"
  by (simp add: loader_inv_def new_world_def)

subsection \<open>A load in flight\<close>

lemma in_flight_step:
  assumes "in_flight w symbol p" and "e \<noteq> Resume symbol p"
  shows "in_flight (step w e) symbol p"
proof -
  have inv: "loader_inv w" and sp: "(symbol, p) \<in> set (suspended w)"
    and nc: "map_of (modelCache (loader w)) (toUpperCase symbol) = None"
    using assms(1) by (simp_all add: in_flight_def)
  have inv': "loader_inv (step w e)" using inv by (rule step_inv)
  show ?thesis
  proof (cases e)
    case (Call s)
    have "modelCache (loader (step w e)) = modelCache (loader w)"
      using Call loadModels_call_cache [of "loader w" s]
      by (auto split: prod.splits load_outcome.splits)
    moreover have "(symbol, p) \<in> set (suspended (step w e))"
      using sp step_Call_suspended Call by blast
    ultimately show ?thesis using inv' nc by (simp add: in_flight_def)
  next
    case (Settle q r)
    then show ?thesis using inv' sp nc by (simp add: in_flight_def loadModelsInternal_settle_def)
  next
    case (Resume s q)
    show ?thesis
    proof (cases "(s, q) \<in> set (suspended w) \<and> settled (loader w) q \<noteq> None")
      case False
      then have "step w e = w" using Resume step_Resume_disabled by blast
      then show ?thesis using assms(1) by simp
    next
      case True
      then obtain r where r: "settled (loader w) q = Some r" by blast
      have sq: "(s, q) \<in> set (suspended w)" using True by simp
      have ne: "toUpperCase s \<noteq> toUpperCase symbol"
        using suspended_unique [OF inv sq sp] assms(2) Resume by blast
      have "(symbol, p) \<in> set (removeAll (s, q) (suspended w))" using sp ne by auto
      moreover have "map_of (AList.update (toUpperCase s) r (modelCache (loader w))) (toUpperCase symbol) = None"
        using nc ne by (simp add: update_conv')
      ultimately show ?thesis
        using inv' unfolding in_flight_def Resume step_Resume_enabled [OF sq r] by simp
    qed
  next
    case (Clear so)
    have "map_of (modelCache (clearCache (loader w) so)) (toUpperCase symbol) = None"
      using nc by (simp add: clearCache_def Let_def delete_conv')
    then show ?thesis using Clear inv' sp by (simp add: in_flight_def clearCache_def Let_def)
  qed
qed

lemma in_flight_run:
  "in_flight w symbol p \<Longrightarrow> Resume symbol p \<notin> set evs \<Longrightarrow> in_flight (run w evs) symbol p"
  unfolding run_def
proof (induction evs arbitrary: w)
  case Nil
  then show ?case by simp
next
  case (Cons e evs)
  then have "in_flight (step w e) symbol p" using in_flight_step by auto
  then show ?case using Cons by simp
qed

lemma in_flight_registered:
  "in_flight w symbol p \<Longrightarrow> loadingPromises (loader w) (toUpperCase symbol) = Some p"
  by (auto simp add: in_flight_def loader_inv_def)

lemma in_flight_joined:
  assumes "in_flight w symbol p" and "toUpperCase symbol' = toUpperCase symbol"
  shows "loadModels_call (loader w) symbol' = (Joined p, loader w)"
  using assms in_flight_registered [OF assms(1)]
  by (simp add: loadModels_call_joined in_flight_def)

lemma first_call_in_flight:
  assumes "loader_inv w" and "map_of (modelCache (loader w)) (toUpperCase symbol) = None"
    and "loadingPromises (loader w) (toUpperCase symbol) = None"
  shows "in_flight (step w (Call symbol)) symbol (next_promise (loader w))"
proof -
  have "loader_inv (step w (Call symbol))" using assms(1) by (rule step_inv)
  then show ?thesis using assms(2,3)
    by (simp add: in_flight_def loadModels_call_started)
qed

text \<open>
  Claim C8. In a world reached from the new loader by any events, where nothing is cached
  or loading for a symbol, a first call of \<open>loadModels\<close> starts a load: it issues the four artifact requests of the symbol
  once and is suspended on a new promise \<open>p\<close>. After any events other than the continuation
  of that first call (so while its load has not resolved, and also when the promise has
  settled but the continuation has not run), a second call for the symbol, in any
  letter case, returns the same promise \<open>p\<close> and changes nothing: it issues no request.
  Once \<open>p\<close> has settled with a result \<open>r\<close>, the first call continues with \<open>r\<close> and the second
  caller receives \<open>r\<close> as well.
\<close>

theorem loadModels_deduplicated:
  assumes "w = run new_world before"
    and "map_of (modelCache (loader w)) (toUpperCase symbol) = None"
    and "loadingPromises (loader w) (toUpperCase symbol) = None"
    and "Resume symbol (next_promise (loader w)) \<notin> set evs"
    and "toUpperCase symbol' = toUpperCase symbol"
    and "w1 = step w (Call symbol)" and "w2 = run w1 evs" and "p = next_promise (loader w)"
  shows "fst (loadModels_call (loader w) symbol) = Started p
    \<and> fetched (loader w1) = fetched (loader w) @ artifact_paths (toLowerCase symbol)
    \<and> artifact_paths (toLowerCase symbol) =
          [''/models/'' @ toLowerCase symbol @ ''/lstm/model.json'',
           ''/models/'' @ toLowerCase symbol @ ''/scaler_params.json'',
           ''/models/'' @ toLowerCase symbol @ ''/ensemble_config.json'',
           ''/models/'' @ toLowerCase symbol @ ''/preprocessing_config.json'']
    \<and> loadModels_call (loader w2) symbol' = (Joined p, loader w2)
    \<and> step w2 (Call symbol') = w2
    \<and> (settled (loader w2) p = Some r \<longrightarrow>
          fst (the (loadModels_resume (loader w2) symbol p)) = r
          \<and> received (loader w2) (Started p) = Some r
          \<and> received (loader w2) (Joined p) = Some r)"
proof -
  have "loader_inv w" unfolding assms(1) using new_world_inv by (rule run_inv)
  then have "in_flight w1 symbol p"
    using first_call_in_flight assms(2,3,6,8) by simp
  then have "in_flight w2 symbol p"
    using in_flight_run assms(4,7,8) by simp
  then have j: "loadModels_call (loader w2) symbol' = (Joined p, loader w2)"
    using in_flight_joined assms(5) by simp
  then have "step w2 (Call symbol') = w2" by simp
  then show ?thesis using j assms(2,3,6,8)
    by (simp add: loadModels_call_started received_def loadModels_resume_def artifact_paths_def Let_def)
qed

theorem loadModels_deduplicated_witness:
  "fetched (loader (step new_world (Call ''AAPL''))) = fetched (loader new_world) @ artifact_paths ''aapl''
   \<and> loadModels_call
        (loader (run (step new_world (Call ''AAPL'')) [Call ''MSFT'', Settle 0 all_null_model])) ''aapl''
       = (Joined 0, loader (run (step new_world (Call ''AAPL'')) [Call ''MSFT'', Settle 0 all_null_model]))"
proof -
  have inv: "new_world = run new_world []" by (simp add: run_def)
  have c: "map_of (modelCache (loader new_world)) (toUpperCase ''AAPL'') = None"
    by (simp add: new_world_def new_ModelLoader_def)
  have l: "loadingPromises (loader new_world) (toUpperCase ''AAPL'') = None"
    by (simp add: new_world_def new_ModelLoader_def)
  have e: "Resume ''AAPL'' (next_promise (loader new_world)) \<notin> set [Call ''MSFT'', Settle 0 all_null_model]"
    by simp
  have u: "toUpperCase ''aapl'' = toUpperCase ''AAPL''"
    by (simp add: toUpperCase_def toUpperCase_char_def)
  have lo: "toLowerCase ''AAPL'' = ''aapl''"
    by (simp add: toLowerCase_def toLowerCase_char_def)
  have p: "(0::nat) = next_promise (loader new_world)"
    by (simp add: new_world_def new_ModelLoader_def)
  show ?thesis
    using loadModels_deduplicated [OF inv c l e u refl refl p] lo by simp
qed

subsection \<open>A completed load\<close>

lemma cached_for_step:
  assumes "cached_for w u r" and "\<not> clears u e"
  shows "cached_for (step w e) u r"
proof -
  have inv: "loader_inv w" and c: "map_of (modelCache (loader w)) u = Some r"
    and nl: "loadingPromises (loader w) u = None"
    using assms(1) by (simp_all add: cached_for_def)
  have inv': "loader_inv (step w e)" using inv by (rule step_inv)
  show ?thesis
  proof (cases e)
    case (Call s)
    show ?thesis
    proof (cases "toUpperCase s = u")
      case True
      then have "step w e = w" using Call c by (simp add: loadModels_call_cached)
      then show ?thesis using assms(1) by simp
    next
      case False
      have "modelCache (loader (step w e)) = modelCache (loader w)"
        using Call loadModels_call_cache [of "loader w" s]
        by (auto split: prod.splits load_outcome.splits)
      moreover have "loadingPromises (loader (step w e)) u = loadingPromises (loader w) u"
        using Call loadModels_call_loading_other [OF False, of "loader w"]
        by (auto split: prod.splits load_outcome.splits)
      ultimately show ?thesis using inv' c nl by (simp add: cached_for_def)
    qed
  next
    case (Settle q m)
    then show ?thesis using inv' c nl by (simp add: cached_for_def loadModelsInternal_settle_def)
  next
    case (Resume s q)
    show ?thesis
    proof (cases "(s, q) \<in> set (suspended w) \<and> settled (loader w) q \<noteq> None")
      case False
      then have "step w e = w" using Resume step_Resume_disabled by blast
      then show ?thesis using assms(1) by simp
    next
      case True
      then obtain m where m: "settled (loader w) q = Some m" by blast
      have sq: "(s, q) \<in> set (suspended w)" using True by simp
      have "loadingPromises (loader w) (toUpperCase s) = Some q"
        using inv sq by (auto simp add: loader_inv_def)
      then have ne: "toUpperCase s \<noteq> u" using nl by auto
      have "map_of (AList.update (toUpperCase s) m (modelCache (loader w))) u = Some r"
        using c ne by (simp add: update_conv')
      then show ?thesis
        using inv' nl unfolding cached_for_def Resume step_Resume_enabled [OF sq m] by simp
    qed
  next
    case (Clear so)
    then obtain s where so: "so = Some s" and s: "s \<noteq> []" and ne: "toUpperCase s \<noteq> u"
      using assms(2) by (cases so) auto
    have "map_of (modelCache (clearCache (loader w) so)) u = Some r"
      using c so s ne by (simp add: clearCache_def Let_def delete_conv')
    then show ?thesis using Clear inv' nl by (simp add: cached_for_def clearCache_def Let_def)
  qed
qed

lemma cached_for_run:
  "cached_for w u r \<Longrightarrow> \<forall>e \<in> set evs. \<not> clears u e \<Longrightarrow> cached_for (run w evs) u r"
  unfolding run_def
proof (induction evs arbitrary: w)
  case Nil
  then show ?case by simp
next
  case (Cons e evs)
  then have "cached_for (step w e) u r" using cached_for_step by auto
  then show ?case using Cons by simp
qed

lemma resume_cached_for:
  assumes "loader_inv w" and "(symbol, p) \<in> set (suspended w)" and "settled (loader w) p = Some r"
  shows "cached_for (step w (Resume symbol p)) (toUpperCase symbol) r"
proof -
  have "loader_inv (step w (Resume symbol p))" using assms(1) by (rule step_inv)
  then show ?thesis using assms(2,3)
    by (simp add: cached_for_def loadModels_resume_def Let_def update_conv')
qed

lemma clearCache_removes:
  "clears u (Clear so) \<Longrightarrow> map_of (modelCache (clearCache st so)) u = None"
  by (cases so) (auto simp add: clearCache_def Let_def delete_conv')

text \<open>
  Claim C9. In a world reached from the new loader by any events, when the call that
  started a load continues with the settled result \<open>r\<close>,
  whatever \<open>r\<close> is (so also when its four slots are \<open>null\<close>), \<open>r\<close> is cached under the
  upper-case symbol. After any events that do not clear the symbol's entry, \<open>r\<close> is still
  cached, and a call of \<open>loadModels\<close> for the symbol, in any letter case, returns that
  object and leaves the world as it is: no request is issued, no load is retried. A
  \<open>clearCache\<close> for the symbol, or for all symbols, removes the entry, and the next call
  starts a new load.
\<close>

theorem loaded_result_stays_cached:
  assumes "w = run new_world before"
    and "(symbol, p) \<in> set (suspended w)" and "settled (loader w) p = Some r"
    and "\<forall>e \<in> set evs. \<not> clears (toUpperCase symbol) e"
    and "toUpperCase symbol' = toUpperCase symbol"
    and "w1 = step w (Resume symbol p)" and "w2 = run w1 evs"
  shows "loadModels_resume (loader w) symbol p = Some (r, loader w1)
    \<and> map_of (modelCache (loader w1)) (toUpperCase symbol) = Some r
    \<and> map_of (modelCache (loader w2)) (toUpperCase symbol) = Some r
    \<and> loadModels_call (loader w2) symbol' = (Cached r, loader w2)
    \<and> step w2 (Call symbol') = w2
    \<and> (clears (toUpperCase symbol) (Clear so) \<longrightarrow>
          map_of (modelCache (loader (step w2 (Clear so)))) (toUpperCase symbol) = None
          \<and> fst (loadModels_call (loader (step w2 (Clear so))) symbol')
              = Started (next_promise (loader w2)))"
proof -
  have "loader_inv w" unfolding assms(1) using new_world_inv by (rule run_inv)
  then have c1: "cached_for w1 (toUpperCase symbol) r"
    using resume_cached_for assms(2,3,6) by simp
  then have c2: "cached_for w2 (toUpperCase symbol) r"
    using cached_for_run assms(4,7) by simp
  then have call: "loadModels_call (loader w2) symbol' = (Cached r, loader w2)"
    using assms(5) by (simp add: cached_for_def loadModels_call_cached)
  have res: "loadModels_resume (loader w) symbol p = Some (r, loader w1)"
    using assms(2,3,6) by (simp add: loadModels_resume_def Let_def)
  have clr: "map_of (modelCache (loader (step w2 (Clear so)))) (toUpperCase symbol) = None
      \<and> fst (loadModels_call (loader (step w2 (Clear so))) symbol') = Started (next_promise (loader w2))"
    if "clears (toUpperCase symbol) (Clear so)"
  proof -
    have n: "map_of (modelCache (clearCache (loader w2) so)) (toUpperCase symbol') = None"
      using clearCache_removes [OF that] assms(5) by simp
    moreover have "loadingPromises (clearCache (loader w2) so) (toUpperCase symbol') = None"
      using c2 assms(5) by (simp add: cached_for_def clearCache_def Let_def)
    moreover have "next_promise (clearCache (loader w2) so) = next_promise (loader w2)"
      by (simp add: clearCache_def Let_def)
    ultimately show ?thesis using assms(5) by (simp add: loadModels_call_started)
  qed
  show ?thesis using res c1 c2 call clr by (simp add: cached_for_def)
qed

lemma settled_world_eq:
  "settled_world =
     \<lparr> loader = \<lparr> modelCache = [], loadingPromises = [''AAPL'' \<mapsto> 0],
                  fetched = artifact_paths ''aapl'', settled = [0 \<mapsto> all_null_model],
                  next_promise = 1, disposed = [] \<rparr>,
       suspended = [(''AAPL'', 0)] \<rparr>"
  by (simp add: settled_world_def run_def new_world_def new_ModelLoader_def loadModels_call_def
      loadModelsInternal_start_def loadModelsInternal_settle_def
      toUpperCase_def toUpperCase_char_def toLowerCase_def toLowerCase_char_def)

theorem loaded_result_stays_cached_witness:
  "loadModels_call
     (loader (run (step settled_world (Resume ''AAPL'' 0))
                [Call ''aapl'', Call ''MSFT'', Clear (Some ''MSFT'')])) ''aapl''
   = (Cached all_null_model,
      loader (run (step settled_world (Resume ''AAPL'' 0))
                [Call ''aapl'', Call ''MSFT'', Clear (Some ''MSFT'')]))
   \<and> map_of (modelCache (loader (step (run (step settled_world (Resume ''AAPL'' 0))
                [Call ''aapl'', Call ''MSFT'', Clear (Some ''MSFT'')]) (Clear (Some ''aapl'')))))
        ''AAPL'' = None"
proof -
  have inv: "settled_world = run new_world [Call ''AAPL'', Settle 0 all_null_model]"
    by (simp add: settled_world_def)
  have s: "(''AAPL'', 0) \<in> set (suspended settled_world)"
    by (simp add: settled_world_eq)
  have r: "settled (loader settled_world) 0 = Some all_null_model"
    by (simp add: settled_world_eq)
  have u: "toUpperCase ''aapl'' = toUpperCase ''AAPL''" and u': "toUpperCase ''AAPL'' = ''AAPL''"
    and m: "toUpperCase ''MSFT'' = ''MSFT''"
    by (simp_all add: toUpperCase_def toUpperCase_char_def)
  have e: "\<forall>e \<in> set [Call ''aapl'', Call ''MSFT'', Clear (Some ''MSFT'')]. \<not> clears (toUpperCase ''AAPL'') e"
    by (simp add: u' m)
  have c: "clears (toUpperCase ''AAPL'') (Clear (Some ''aapl''))"
    by (simp add: u)
  show ?thesis
    using loaded_result_stays_cached [OF inv s r e u refl refl, of "Some ''aapl''"] c u'
    by simp
qed

end
